theory Spec2Isabelle
  imports Main "HOL-Library.AList"
begin

section \<open>Values, errors and objects\<close>

text \<open>
  Python values as far as Functor.py handles them. A float is kept as mantissa and binary
  exponent (or an infinity, or not-a-number); parsing and printing floats belong to the
  Python runtime and are parameters below. \<open>PRef\<close> is a reference to an object of the heap.
\<close>

datatype pyfloat = Finite int int | Infinity bool | NaN

datatype pyval =
    PNone
  | PBool bool
  | PInt int
  | PFloat pyfloat
  | PStr string
  | PList "pyval list"
  | PDict "(pyval \<times> pyval) list"
  | PRef nat

datatype error =
    AttributeError
  | TypeError
  | MissingArgumentError
  | MissingMethodError
  | FunctorError
  | InvalidNext
  | RecursionError
  | DanglingReference
  | OtherError string

text \<open>The seven resolvers \<open>fetch_location_*\<close> that Functor defines.\<close>

datatype resolver =
    Loc_this | Loc_precursor | Loc_args | Loc_executor | Loc_config | Loc_globals
  | Loc_environment

text \<open>
  The instance attributes that \<open>Functor.__init__\<close> and \<open>WarmUp\<close> create, with their
  Python names. \<open>attrs\<close> holds every other data attribute of the instance (what
  \<open>Set\<close> stores by name). \<open>callbacks_fetch\<close> says whether \<open>callbacks.fetch\<close> is set;
  the callback itself is outside the repository, its invocations are logged.
\<close>

record Functor =
  name :: string
  callMethod :: string
  rollbackMethod :: string
  initialized :: bool
  requiredKWArgs :: "string list"
  staticKWArgs :: "string list"
  staticArgsValid :: bool
  optionalKWArgs :: "(string \<times> pyval) list"
  argMapping :: "string list"
  fetchFrom :: "string list"
  fetchLocations :: "(string \<times> resolver) list"
  requiredMethods :: "string list"
  requiredPrograms :: "string list"
  configNameOverrides :: "(string \<times> string) list"
  enableRollback :: bool
  result :: int
  raiseExceptions :: bool
  functionSucceeded :: bool
  rollbackSucceeded :: bool
  precursor :: "nat option"
  executor :: "nat option"
  "next" :: pyval
  callbacks_fetch :: bool
  args :: "pyval list"
  kwargs :: "(string \<times> pyval) list"
  config :: "(string \<times> pyval) list option"
  attrs :: "(string \<times> pyval) list"

text \<open>
  Objects live in a heap and refer to each other by address, so that a predecessor chain
  may loop back by reference. A Python reference always denotes an object; an address
  outside the heap is reported as \<open>DanglingReference\<close>.
\<close>

type_synonym heap = "Functor list"

definition deref :: "heap \<Rightarrow> nat \<Rightarrow> Functor option" where
  "deref h a = (if a < length h then Some (h ! a) else None)"

text \<open>
  What the code takes from the Python runtime and the operating system: the environment
  variables, the \<open>builtins\<close> namespace, the iteration order of \<open>list(set(xs))\<close>, the
  conversions \<open>float\<close>, \<open>int\<close> and \<open>str\<close>, the evaluation of an f-string against an
  object (\<open>eval\<close> in \<open>EvaluateToType\<close>), and \<open>shutil.which\<close>.
\<close>

record runtime =
  os_environ :: "string \<Rightarrow> string option"
  builtins_ns :: "string \<Rightarrow> pyval option"
  list_set :: "string list \<Rightarrow> string list"
  py_float :: "string \<Rightarrow> pyfloat option"
  str_float :: "pyfloat \<Rightarrow> string"
  py_int :: "string \<Rightarrow> int option"
  str_int :: "int \<Rightarrow> string"
  fstring :: "heap \<Rightarrow> nat \<Rightarrow> string \<Rightarrow> error + string"
  which :: "string \<Rightarrow> string option"

text \<open>\<open>list(set(xs))\<close> holds each element of \<open>xs\<close> once, in an order the runtime picks.\<close>

definition set_order_ok :: "runtime \<Rightarrow> bool" where
  "set_order_ok rt = (\<forall>xs. set (list_set rt xs) = set xs \<and> distinct (list_set rt xs))"

section \<open>Strings\<close>

definition upper_char :: "char \<Rightarrow> char" where
  "upper_char c =
     (let n = (of_char c :: nat) in if 97 \<le> n \<and> n \<le> 122 then char_of (n - 32) else c)"

definition lower_char :: "char \<Rightarrow> char" where
  "lower_char c =
     (let n = (of_char c :: nat) in if 65 \<le> n \<and> n \<le> 90 then char_of (n + 32) else c)"

definition upper :: "string \<Rightarrow> string" where
  "upper s = map upper_char s"

definition lower :: "string \<Rightarrow> string" where
  "lower s = map lower_char s"

section \<open>Attribute access\<close>

definition strs :: "string list \<Rightarrow> pyval" where
  "strs xs = PList (map PStr xs)"

definition ref_or_none :: "nat option \<Rightarrow> pyval" where
  "ref_or_none r = (case r of None \<Rightarrow> PNone | Some a \<Rightarrow> PRef a)"

text \<open>The attributes of \<open>__init__\<close> under their names, as values.\<close>

definition field_value :: "Functor \<Rightarrow> string \<Rightarrow> pyval option" where
  "field_value f n =
     (if n = ''name'' then Some (PStr (name f))
      else if n = ''callMethod'' then Some (PStr (callMethod f))
      else if n = ''rollbackMethod'' then Some (PStr (rollbackMethod f))
      else if n = ''initialized'' then Some (PBool (initialized f))
      else if n = ''requiredKWArgs'' then Some (strs (requiredKWArgs f))
      else if n = ''staticKWArgs'' then Some (strs (staticKWArgs f))
      else if n = ''staticArgsValid'' then Some (PBool (staticArgsValid f))
      else if n = ''optionalKWArgs''
        then Some (PDict (map (\<lambda>(k, v). (PStr k, v)) (optionalKWArgs f)))
      else if n = ''argMapping'' then Some (strs (argMapping f))
      else if n = ''fetchFrom'' then Some (strs (fetchFrom f))
      else if n = ''requiredMethods'' then Some (strs (requiredMethods f))
      else if n = ''requiredPrograms'' then Some (strs (requiredPrograms f))
      else if n = ''configNameOverrides''
        then Some (PDict (map (\<lambda>(k, v). (PStr k, PStr v)) (configNameOverrides f)))
      else if n = ''enableRollback'' then Some (PBool (enableRollback f))
      else if n = ''result'' then Some (PInt (result f))
      else if n = ''raiseExceptions'' then Some (PBool (raiseExceptions f))
      else if n = ''functionSucceeded'' then Some (PBool (functionSucceeded f))
      else if n = ''rollbackSucceeded'' then Some (PBool (rollbackSucceeded f))
      else if n = ''precursor'' then Some (ref_or_none (precursor f))
      else if n = ''executor'' then Some (ref_or_none (executor f))
      else if n = ''next'' then Some (next f)
      else if n = ''args'' then Some (PList (args f))
      else if n = ''kwargs'' then Some (PDict (map (\<lambda>(k, v). (PStr k, v)) (kwargs f)))
      else if n = ''config''
        then map_option (\<lambda>c. PDict (map (\<lambda>(k, v). (PStr k, v)) c)) (config f)
      else None)"

text \<open>
  Modelled from the spec: \<open>util.HasAttr\<close> and \<open>util.GetAttr\<close> (Utils.py is not among the
  sources): "the Operation's own attributes, direct lookup, found if the attribute
  exists". What was stored by name in \<open>attrs\<close> is looked at first.
\<close>

definition GetAttr :: "Functor \<Rightarrow> string \<Rightarrow> pyval option" where
  "GetAttr f n = (case map_of (attrs f) n of Some v \<Rightarrow> Some v | None \<Rightarrow> field_value f n)"

definition HasAttr :: "Functor \<Rightarrow> string \<Rightarrow> bool" where
  "HasAttr f n = (GetAttr f n \<noteq> None)"

section \<open>Fetch\<close>

text \<open>
  \<open>Fetch\<close> returns the value at a top call (\<open>start\<close>) and the pair (value, found) at a
  nested call. The list \<open>attempted\<close> is one Python list shared by the whole resolution
  chain and appended to in place; with the log of the \<open>callbacks.fetch\<close> invocations
  (varName, location, value) it is the state that a resolution threads through.
\<close>

datatype fetched = Value pyval | Pair pyval bool

type_synonym fetch_event = "string \<times> string \<times> pyval"
type_synonym fstate = "string list \<times> fetch_event list"
type_synonym 'a outcome = "((error + 'a) \<times> fstate) option"

text \<open>\<open>ret, found = ...\<close>: unpacking the result of a nested call.\<close>

definition unpack :: "fetched outcome \<Rightarrow> (pyval \<times> bool) outcome" where
  "unpack r =
     (case r of
        None \<Rightarrow> None
      | Some (Inl e, st) \<Rightarrow> Some (Inl e, st)
      | Some (Inr (Pair v b), st) \<Rightarrow> Some (Inr (v, b), st)
      | Some (Inr (Value v), st) \<Rightarrow> Some (Inl TypeError, st))"

text \<open>
  The three convenience variants, over the \<open>Fetch\<close> of the object they are called on
  (\<open>this.Fetch\<close>, the first argument).
\<close>

definition FetchWith_on ::
  "(string \<Rightarrow> pyval \<Rightarrow> string list option \<Rightarrow> bool \<Rightarrow> string list option
      \<Rightarrow> fetch_event list \<Rightarrow> fetched outcome)
    \<Rightarrow> runtime \<Rightarrow> Functor \<Rightarrow> string list \<Rightarrow> string \<Rightarrow> pyval \<Rightarrow> string list option
    \<Rightarrow> bool \<Rightarrow> string list option \<Rightarrow> fetch_event list \<Rightarrow> fetched outcome" where
  "FetchWith_on Fetch rt this doFetchFrom varName dflt currentFetchFrom start attempted evs =
     (let currentFetchFrom =
            (case currentFetchFrom of None \<Rightarrow> fetchFrom this | Some c \<Rightarrow> c);
          fetchFrom = list_set rt (currentFetchFrom @ doFetchFrom)
      in Fetch varName dflt (Some fetchFrom) start attempted evs)"

definition FetchWithout_on ::
  "(string \<Rightarrow> pyval \<Rightarrow> string list option \<Rightarrow> bool \<Rightarrow> string list option
      \<Rightarrow> fetch_event list \<Rightarrow> fetched outcome)
    \<Rightarrow> runtime \<Rightarrow> Functor \<Rightarrow> string list \<Rightarrow> string \<Rightarrow> pyval \<Rightarrow> string list option
    \<Rightarrow> bool \<Rightarrow> string list option \<Rightarrow> fetch_event list \<Rightarrow> fetched outcome" where
  "FetchWithout_on Fetch rt this dontFetchFrom varName dflt currentFetchFrom start attempted evs =
     (let currentFetchFrom =
            (case currentFetchFrom of None \<Rightarrow> fetchFrom this | Some c \<Rightarrow> c);
          fetchFrom = filter (\<lambda>f. f \<notin> set dontFetchFrom) (fetchFrom this)
      in Fetch varName dflt (Some fetchFrom) start attempted evs)"

definition FetchWithAndWithout_on ::
  "(string \<Rightarrow> pyval \<Rightarrow> string list option \<Rightarrow> bool \<Rightarrow> string list option
      \<Rightarrow> fetch_event list \<Rightarrow> fetched outcome)
    \<Rightarrow> runtime \<Rightarrow> Functor \<Rightarrow> string list \<Rightarrow> string list \<Rightarrow> string \<Rightarrow> pyval
    \<Rightarrow> string list option \<Rightarrow> bool \<Rightarrow> string list option \<Rightarrow> fetch_event list
    \<Rightarrow> fetched outcome" where
  "FetchWithAndWithout_on Fetch rt this doFetchFrom dontFetchFrom varName dflt
      currentFetchFrom start attempted evs =
     (let currentFetchFrom =
            (case currentFetchFrom of None \<Rightarrow> fetchFrom this | Some c \<Rightarrow> c);
          fetchFrom = filter (\<lambda>f. f \<notin> set dontFetchFrom) (fetchFrom this);
          fetchFrom = list_set rt (fetchFrom @ doFetchFrom)
      in Fetch varName dflt (Some fetchFrom) start attempted evs)"


subsection \<open>The resolvers\<close>

definition fetch_location_this :: "Functor \<Rightarrow> string \<Rightarrow> pyval \<Rightarrow> pyval \<times> bool" where
  "fetch_location_this this varName dflt =
     (case GetAttr this varName of Some v \<Rightarrow> (v, True) | None \<Rightarrow> (dflt, False))"

definition fetch_location_args :: "Functor \<Rightarrow> string \<Rightarrow> pyval \<Rightarrow> pyval \<times> bool" where
  "fetch_location_args this varName dflt =
     (case map_of (kwargs this) varName of Some val \<Rightarrow> (val, True) | None \<Rightarrow> (dflt, False))"

definition fetch_location_config :: "Functor \<Rightarrow> string \<Rightarrow> pyval \<Rightarrow> pyval \<times> bool" where
  "fetch_location_config this varName dflt =
     (case config this of
        None \<Rightarrow> (dflt, False)
      | Some c \<Rightarrow> (case map_of c varName of Some val \<Rightarrow> (val, True) | None \<Rightarrow> (dflt, False)))"

definition fetch_location_globals :: "runtime \<Rightarrow> string \<Rightarrow> pyval \<Rightarrow> pyval \<times> bool" where
  "fetch_location_globals rt varName dflt =
     (case builtins_ns rt varName of Some v \<Rightarrow> (v, True) | None \<Rightarrow> (dflt, False))"

definition fetch_location_environment :: "runtime \<Rightarrow> string \<Rightarrow> pyval \<Rightarrow> pyval \<times> bool" where
  "fetch_location_environment rt varName dflt =
     (case os_environ rt varName of
        Some envVar \<Rightarrow> (PStr envVar, True)
      | None \<Rightarrow>
          (case os_environ rt (upper varName) of
             Some envVar \<Rightarrow> (PStr envVar, True)
           | None \<Rightarrow> (dflt, False)))"

text \<open>
  The two delegating resolvers. \<open>FetchOf p\<close> is the \<open>Fetch\<close> of the object at address
  \<open>p\<close>; the list \<open>attempted\<close> is passed on as it is.
\<close>

definition fetch_location_precursor ::
  "(nat \<Rightarrow> string \<Rightarrow> pyval \<Rightarrow> string list option \<Rightarrow> bool \<Rightarrow> string list option
      \<Rightarrow> fetch_event list \<Rightarrow> fetched outcome)
    \<Rightarrow> runtime \<Rightarrow> heap \<Rightarrow> Functor \<Rightarrow> string \<Rightarrow> pyval \<Rightarrow> string list \<Rightarrow> fstate
    \<Rightarrow> (pyval \<times> bool) outcome" where
  "fetch_location_precursor FetchOf rt h this varName dflt fetchFrom' st =
     (case precursor this of
        None \<Rightarrow> Some (Inr (dflt, False), st)
      | Some p \<Rightarrow>
          (case deref h p of
             None \<Rightarrow> Some (Inl DanglingReference, st)
           | Some pre \<Rightarrow>
               unpack (FetchWithAndWithout_on (FetchOf p) rt pre [''this''] [''environment'']
                 varName dflt (Some fetchFrom') False (Some (fst st)) (snd st))))"

text \<open>
  Modelled from the spec: the orchestrating context (Executor.py is not among the
  sources) offers \<open>FetchWithout\<close> with "the same contract as the core Resolver"; it is an
  object of the heap and its \<open>FetchWithout\<close> is the one above. \<open>GetExecutor\<close> returns
  \<open>this.executor\<close>; calling a method of \<open>None\<close> raises \<open>AttributeError\<close>.
\<close>

definition fetch_location_executor ::
  "(nat \<Rightarrow> string \<Rightarrow> pyval \<Rightarrow> string list option \<Rightarrow> bool \<Rightarrow> string list option
      \<Rightarrow> fetch_event list \<Rightarrow> fetched outcome)
    \<Rightarrow> runtime \<Rightarrow> heap \<Rightarrow> Functor \<Rightarrow> string \<Rightarrow> pyval \<Rightarrow> string list \<Rightarrow> fstate
    \<Rightarrow> (pyval \<times> bool) outcome" where
  "fetch_location_executor FetchOf rt h this varName dflt fetchFrom' st =
     (case executor this of
        None \<Rightarrow> Some (Inl AttributeError, st)
      | Some x \<Rightarrow>
          (case deref h x of
             None \<Rightarrow> Some (Inl DanglingReference, st)
           | Some ex \<Rightarrow>
               unpack (FetchWithout_on (FetchOf x) rt ex [''environment'']
                 varName dflt (Some fetchFrom') False (Some (fst st)) (snd st))))"

text \<open>\<open>this.fetchLocations[loc](varName, default, fetchFrom, attempted)\<close>\<close>

definition fetch_location ::
  "(nat \<Rightarrow> string \<Rightarrow> pyval \<Rightarrow> string list option \<Rightarrow> bool \<Rightarrow> string list option
      \<Rightarrow> fetch_event list \<Rightarrow> fetched outcome)
    \<Rightarrow> runtime \<Rightarrow> heap \<Rightarrow> Functor \<Rightarrow> string \<Rightarrow> pyval \<Rightarrow> string list \<Rightarrow> resolver
    \<Rightarrow> fstate \<Rightarrow> (pyval \<times> bool) outcome" where
  "fetch_location FetchOf rt h this varName dflt fetchFrom' r st =
     (case r of
        Loc_this \<Rightarrow> Some (Inr (fetch_location_this this varName dflt), st)
      | Loc_args \<Rightarrow> Some (Inr (fetch_location_args this varName dflt), st)
      | Loc_config \<Rightarrow> Some (Inr (fetch_location_config this varName dflt), st)
      | Loc_globals \<Rightarrow> Some (Inr (fetch_location_globals rt varName dflt), st)
      | Loc_environment \<Rightarrow> Some (Inr (fetch_location_environment rt varName dflt), st)
      | Loc_precursor \<Rightarrow> fetch_location_precursor FetchOf rt h this varName dflt fetchFrom' st
      | Loc_executor \<Rightarrow> fetch_location_executor FetchOf rt h this varName dflt fetchFrom' st)"

subsection \<open>The loop over the scope order\<close>

text \<open>
  \<open>for loc in fetchFrom\<close>: a scope without an entry in \<open>fetchLocations\<close> is passed over,
  the first resolver that reports found ends the loop with its scope and value.
\<close>

fun fetch_loop ::
  "(resolver \<Rightarrow> fstate \<Rightarrow> (pyval \<times> bool) outcome) \<Rightarrow> (string \<times> resolver) list
    \<Rightarrow> string list \<Rightarrow> fstate \<Rightarrow> (string \<times> pyval) option outcome" where
  "fetch_loop call locations [] st = Some (Inr None, st)"
| "fetch_loop call locations (loc # rest) st =
     (case map_of locations loc of
        None \<Rightarrow> fetch_loop call locations rest st
      | Some r \<Rightarrow>
          (case call r st of
             None \<Rightarrow> None
           | Some (Inl e, st') \<Rightarrow> Some (Inl e, st')
           | Some (Inr (ret, found), st') \<Rightarrow>
               if found then Some (Inr (Some (loc, ret)), st')
               else fetch_loop call locations rest st'))"

text \<open>The value \<open>Fetch\<close> hands back, by \<open>start\<close>.\<close>

definition hand_back :: "bool \<Rightarrow> pyval \<Rightarrow> bool \<Rightarrow> fetched" where
  "hand_back start v found = (if start then Value v else Pair v found)"

definition fire :: "Functor \<Rightarrow> fetch_event \<Rightarrow> fetch_event list \<Rightarrow> fetch_event list" where
  "fire this ev evs = (if callbacks_fetch this then evs @ [ev] else evs)"

text \<open>\<open>if (attempted is None): attempted = []\<close>\<close>

definition given :: "string list option \<Rightarrow> string list" where
  "given attempted = (case attempted of None \<Rightarrow> [] | Some l \<Rightarrow> l)"

text \<open>
  \<open>Fetch\<close> of the object at address \<open>a\<close>. The first argument bounds the depth of the
  delegations to other objects: \<open>None\<close> is a resolution that needs more.
\<close>

fun FetchN ::
  "nat \<Rightarrow> runtime \<Rightarrow> heap \<Rightarrow> nat \<Rightarrow> string \<Rightarrow> pyval \<Rightarrow> string list option \<Rightarrow> bool
    \<Rightarrow> string list option \<Rightarrow> fetch_event list \<Rightarrow> fetched outcome" where
  "FetchN 0 rt h a varName dflt fetchFrom' start attempted evs = None"
| "FetchN (Suc n) rt h a varName dflt fetchFrom' start attempted evs =
     (let attempted = given attempted in
      case deref h a of
        None \<Rightarrow> Some (Inl DanglingReference, (attempted, evs))
      | Some this \<Rightarrow>
          if name this \<in> set attempted
          then Some (Inr (hand_back start dflt False), (attempted, evs))
          else
            let attempted = attempted @ [name this];
                fetchFrom = (case fetchFrom' of None \<Rightarrow> Functor.fetchFrom this | Some l \<Rightarrow> l)
            in case fetch_loop (fetch_location (FetchN n rt h) rt h this varName dflt fetchFrom)
                      (fetchLocations this) fetchFrom (attempted, evs) of
                 None \<Rightarrow> None
               | Some (Inl e, st) \<Rightarrow> Some (Inl e, st)
               | Some (Inr (Some (loc, ret)), (att, evs')) \<Rightarrow>
                   Some (Inr (hand_back start ret True),
                         (att, fire this (varName, loc, ret) evs'))
               | Some (Inr None, (att, evs')) \<Rightarrow>
                   Some (Inr (hand_back start dflt False),
                         (att, fire this (varName, ''default'', dflt) evs')))"

text \<open>The variants as methods of the object at address \<open>a\<close>.\<close>

definition FetchWithN ::
  "nat \<Rightarrow> runtime \<Rightarrow> heap \<Rightarrow> nat \<Rightarrow> string list \<Rightarrow> string \<Rightarrow> pyval \<Rightarrow> string list option
    \<Rightarrow> bool \<Rightarrow> string list option \<Rightarrow> fetch_event list \<Rightarrow> fetched outcome" where
  "FetchWithN n rt h a doFetchFrom varName dflt currentFetchFrom start attempted evs =
     (case deref h a of
        None \<Rightarrow> Some (Inl DanglingReference, (given attempted, evs))
      | Some this \<Rightarrow>
          FetchWith_on (FetchN n rt h a) rt this doFetchFrom varName dflt currentFetchFrom
            start attempted evs)"

definition FetchWithoutN ::
  "nat \<Rightarrow> runtime \<Rightarrow> heap \<Rightarrow> nat \<Rightarrow> string list \<Rightarrow> string \<Rightarrow> pyval \<Rightarrow> string list option
    \<Rightarrow> bool \<Rightarrow> string list option \<Rightarrow> fetch_event list \<Rightarrow> fetched outcome" where
  "FetchWithoutN n rt h a dontFetchFrom varName dflt currentFetchFrom start attempted evs =
     (case deref h a of
        None \<Rightarrow> Some (Inl DanglingReference, (given attempted, evs))
      | Some this \<Rightarrow>
          FetchWithout_on (FetchN n rt h a) rt this dontFetchFrom varName dflt currentFetchFrom
            start attempted evs)"

definition FetchWithAndWithoutN ::
  "nat \<Rightarrow> runtime \<Rightarrow> heap \<Rightarrow> nat \<Rightarrow> string list \<Rightarrow> string list \<Rightarrow> string \<Rightarrow> pyval
    \<Rightarrow> string list option \<Rightarrow> bool \<Rightarrow> string list option \<Rightarrow> fetch_event list
    \<Rightarrow> fetched outcome" where
  "FetchWithAndWithoutN n rt h a doFetchFrom dontFetchFrom varName dflt currentFetchFrom start
      attempted evs =
     (case deref h a of
        None \<Rightarrow> Some (Inl DanglingReference, (given attempted, evs))
      | Some this \<Rightarrow>
          FetchWithAndWithout_on (FetchN n rt h a) rt this doFetchFrom dontFetchFrom varName dflt
            currentFetchFrom start attempted evs)"

section \<open>Construction and initialization\<close>

text \<open>\<open>Functor.__init__\<close>\<close>

definition Functor_init :: "string \<Rightarrow> Functor" where
  "Functor_init n =
     \<lparr> name = n,
       callMethod = ''Function'',
       rollbackMethod = ''Rollback'',
       initialized = False,
       requiredKWArgs = [],
       staticKWArgs = [],
       staticArgsValid = False,
       optionalKWArgs = [],
       argMapping = [],
       fetchFrom = [''this'', ''args'', ''globals'', ''config'', ''precursor'', ''executor'',
                    ''environment''],
       fetchLocations = [],
       requiredMethods = [],
       requiredPrograms = [],
       configNameOverrides = [],
       enableRollback = True,
       result = 0,
       raiseExceptions = True,
       functionSucceeded = False,
       rollbackSucceeded = False,
       precursor = None,
       executor = None,
       next = PList [],
       callbacks_fetch = False,
       args = [],
       kwargs = [],
       config = None,
       attrs = [] \<rparr>"

text \<open>\<open>getattr(this, f"fetch_location_{loc}")\<close> on a Functor.\<close>

definition fetch_location_named :: "string \<Rightarrow> resolver option" where
  "fetch_location_named loc =
     (if loc = ''this'' then Some Loc_this
      else if loc = ''precursor'' then Some Loc_precursor
      else if loc = ''args'' then Some Loc_args
      else if loc = ''executor'' then Some Loc_executor
      else if loc = ''config'' then Some Loc_config
      else if loc = ''globals'' then Some Loc_globals
      else if loc = ''environment'' then Some Loc_environment
      else None)"

text \<open>
  \<open>PopulateFetchLocations\<close>: the \<open>try\<close> encloses the whole loop, so the first scope
  without a method ends it.
\<close>

fun populate_locations :: "string list \<Rightarrow> (string \<times> resolver) list \<Rightarrow> (string \<times> resolver) list" where
  "populate_locations [] locations = locations"
| "populate_locations (loc # rest) locations =
     (case fetch_location_named loc of
        None \<Rightarrow> locations
      | Some r \<Rightarrow> populate_locations rest (AList.update loc r locations))"

definition PopulateFetchLocations :: "Functor \<Rightarrow> Functor" where
  "PopulateFetchLocations this =
     this\<lparr>fetchLocations := populate_locations (fetchFrom this) (fetchLocations this)\<rparr>"

text \<open>
  \<open>PopulatePrecursor\<close>. A step of the lifecycle changes the object and may raise; the
  object is handed back in both cases, since what a step did before it raised stays. The
  value under \<open>'executor'\<close> or \<open>'precursor'\<close> is a reference to an object; any other
  value has no \<open>name\<close>, so that logging it raises.
\<close>

definition as_ref :: "pyval \<Rightarrow> nat option" where
  "as_ref v = (case v of PRef a \<Rightarrow> Some a | _ \<Rightarrow> None)"

definition PopulatePrecursor :: "Functor \<Rightarrow> error option \<times> Functor" where
  "PopulatePrecursor this =
     (let this =
            (if executor this = None
             then (case map_of (kwargs this) ''executor'' of
                     Some x \<Rightarrow>
                       this\<lparr>executor := as_ref x,
                            kwargs := AList.delete ''executor'' (kwargs this)\<rparr>
                   | None \<Rightarrow> this)
             else this)
      in case map_of (kwargs this) ''precursor'' of
           Some p \<Rightarrow>
             (let this = this\<lparr>precursor := as_ref p,
                                kwargs := AList.delete ''precursor'' (kwargs this)\<rparr>
              in case p of PRef pa \<Rightarrow> (None, this) | _ \<Rightarrow> (Some AttributeError, this))
         | None \<Rightarrow> (None, this\<lparr>precursor := None\<rparr>))"

text \<open>
  \<open>RemoveDuplicateArgs\<close>. \<open>list(dict.fromkeys(xs))\<close> keeps the first occurrence of each
  element, in order.
\<close>

fun fromkeys :: "'a list \<Rightarrow> 'a list \<Rightarrow> 'a list" where
  "fromkeys seen [] = seen"
| "fromkeys seen (x # xs) = (if x \<in> set seen then fromkeys seen xs else fromkeys (seen @ [x]) xs)"

definition dict_fromkeys :: "'a list \<Rightarrow> 'a list" where
  "dict_fromkeys xs = fromkeys [] xs"

text \<open>
  \<open>for arg in this.requiredKWArgs: if arg in optional: this.requiredKWArgs.remove(arg)\<close>.
  The loop walks the list by position while \<open>remove\<close> takes the first occurrence out of
  the same list; \<open>i\<close> is the position of the iterator.
\<close>

function remove_optional :: "nat \<Rightarrow> string list \<Rightarrow> string list \<Rightarrow> string list" where
  "remove_optional i required optional =
     (if i < length required
      then (let arg = required ! i
            in if arg \<in> set optional
               then remove_optional (Suc i) (remove1 arg required) optional
               else remove_optional (Suc i) required optional)
      else required)"
  by pat_completeness auto
termination
proof (relation "measure (\<lambda>(i, required, optional). length required - i)")
  show "wf (measure (\<lambda>(i, required, optional). length required - i))" by simp
next
  fix i :: nat and required optional :: "string list" and arg
  assume "i < length required" "arg = required ! i" "arg \<in> set optional"
  then have "arg \<in> set required" by simp
  then have "length (remove1 arg required) = length required - 1"
    by (simp add: length_remove1)
  with \<open>i < length required\<close>
  show "((Suc i, remove1 arg required, optional), (i, required, optional))
          \<in> measure (\<lambda>(i, required, optional). length required - i)"
    by simp
next
  fix i :: nat and required optional :: "string list" and arg
  assume "i < length required"
  then show "((Suc i, required, optional), (i, required, optional))
          \<in> measure (\<lambda>(i, required, optional). length required - i)"
    by simp
qed

definition RemoveDuplicateArgs :: "Functor \<Rightarrow> Functor" where
  "RemoveDuplicateArgs this =
     (let this = this\<lparr>requiredKWArgs := dict_fromkeys (requiredKWArgs this)\<rparr>;
          this = this\<lparr>requiredMethods := dict_fromkeys (requiredMethods this)\<rparr>;
          this = this\<lparr>requiredPrograms := dict_fromkeys (requiredPrograms this)\<rparr>
      in this\<lparr>requiredKWArgs :=
                 remove_optional 0 (requiredKWArgs this) (map fst (optionalKWArgs this))\<rparr>)"

text \<open>\<open>Initialize\<close>\<close>

definition Initialize :: "runtime \<Rightarrow> Functor \<Rightarrow> error option \<times> Functor" where
  "Initialize rt this =
     (if initialized this then (None, this)
      else
        let this = PopulateFetchLocations this;
            this = RemoveDuplicateArgs this
        in if \<exists>prog \<in> set (requiredPrograms this). which rt prog = None
           then (Some FunctorError, this)
           else (None, this\<lparr>initialized := True\<rparr>))"

section \<open>Evaluation to a type\<close>

text \<open>The first error of a list of results, or all the values.\<close>

fun collect :: "(error + 'a) list \<Rightarrow> error + 'a list" where
  "collect [] = Inr []"
| "collect (Inl e # rs) = Inl e"
| "collect (Inr v # rs) = (case collect rs of Inl e \<Rightarrow> Inl e | Inr vs \<Rightarrow> Inr (v # vs))"

text \<open>
  The text branch of \<open>EvaluateToType\<close>: \<open>eval\<close> of the f-string when asked for and
  the text holds both braces, then the boolean words, then \<open>float\<close> and \<open>int\<close>, each
  accepted only when \<open>str\<close> gives the text back. \<open>py_float\<close> and \<open>py_int\<close> are \<open>None\<close>
  where the conversion raises.
\<close>

definition evaluate_text :: "runtime \<Rightarrow> heap \<Rightarrow> nat \<Rightarrow> string \<Rightarrow> bool \<Rightarrow> error + pyval" where
  "evaluate_text rt h a value evaluateExpressions =
     (case (if evaluateExpressions \<and> CHR ''{'' \<in> set value \<and> CHR ''}'' \<in> set value
            then fstring rt h a value else Inr value) of
        Inl e \<Rightarrow> Inl e
      | Inr evaluatedValue \<Rightarrow>
          if lower evaluatedValue = ''false'' then Inr (PBool False)
          else if lower evaluatedValue = ''true'' then Inr (PBool True)
          else
            (case (case py_float rt evaluatedValue of
                     None \<Rightarrow> None
                   | Some x \<Rightarrow> if str_float rt x = evaluatedValue then Some x else None) of
               Some x \<Rightarrow> Inr (PFloat x)
             | None \<Rightarrow>
                 (case (case py_int rt evaluatedValue of
                          None \<Rightarrow> None
                        | Some i \<Rightarrow> if str_int rt i = evaluatedValue then Some i else None) of
                    Some i \<Rightarrow> Inr (PInt i)
                  | None \<Rightarrow> Inr (PStr evaluatedValue))))"

fun EvaluateToType :: "runtime \<Rightarrow> heap \<Rightarrow> nat \<Rightarrow> pyval \<Rightarrow> bool \<Rightarrow> error + pyval" where
  "EvaluateToType rt h a PNone evaluateExpressions = Inr PNone"
| "EvaluateToType rt h a (PBool b) evaluateExpressions = Inr (PBool b)"
| "EvaluateToType rt h a (PInt i) evaluateExpressions = Inr (PInt i)"
| "EvaluateToType rt h a (PFloat x) evaluateExpressions = Inr (PFloat x)"
| "EvaluateToType rt h a (PDict items) evaluateExpressions =
     (case collect (map (\<lambda>(key, val).
                      case EvaluateToType rt h a val evaluateExpressions of
                        Inl e \<Rightarrow> Inl e
                      | Inr r \<Rightarrow> Inr (key, r)) items) of
        Inl e \<Rightarrow> Inl e
      | Inr ret \<Rightarrow> Inr (PDict ret))"
| "EvaluateToType rt h a (PList vals) evaluateExpressions =
     (case collect (map (\<lambda>val. EvaluateToType rt h a val evaluateExpressions) vals) of
        Inl e \<Rightarrow> Inl e
      | Inr ret \<Rightarrow> Inr (PList ret))"
| "EvaluateToType rt h a (PStr value) evaluateExpressions =
     (if value = ''None'' then Inr PNone
      else evaluate_text rt h a value evaluateExpressions)"
| "EvaluateToType rt h a (PRef r) evaluateExpressions = Inr (PRef r)"

section \<open>Storing attributes\<close>

text \<open>
  \<open>setattr(this, varName, value)\<close>. A value of the shape a field of the record has goes
  into the field; any other value, and any other name, is kept in \<open>attrs\<close>, where
  \<open>GetAttr\<close> finds it first. A \<open>config\<close> that is no mapping is no configuration.
\<close>

fun str_of :: "pyval \<Rightarrow> string option" where
  "str_of (PStr s) = Some s"
| "str_of _ = None"

definition as_bool :: "pyval \<Rightarrow> bool option" where
  "as_bool v = (case v of PBool b \<Rightarrow> Some b | _ \<Rightarrow> None)"

definition as_int :: "pyval \<Rightarrow> int option" where
  "as_int v = (case v of PInt i \<Rightarrow> Some i | _ \<Rightarrow> None)"

definition as_strs :: "pyval \<Rightarrow> string list option" where
  "as_strs v = (case v of PList vs \<Rightarrow> those (map str_of vs) | _ \<Rightarrow> None)"

definition as_items :: "pyval \<Rightarrow> (string \<times> pyval) list option" where
  "as_items v =
     (case v of
        PDict kvs \<Rightarrow> those (map (\<lambda>(k, x). map_option (\<lambda>n. (n, x)) (str_of k)) kvs)
      | _ \<Rightarrow> None)"

definition as_names :: "pyval \<Rightarrow> (string \<times> string) list option" where
  "as_names v =
     (case v of
        PDict kvs \<Rightarrow>
          those (map (\<lambda>(k, x). case str_of k of
                                  None \<Rightarrow> None
                                | Some n \<Rightarrow> map_option (\<lambda>m. (n, m)) (str_of x)) kvs)
      | _ \<Rightarrow> None)"

definition as_link :: "pyval \<Rightarrow> nat option option" where
  "as_link v = (case v of PNone \<Rightarrow> Some None | PRef a \<Rightarrow> Some (Some a) | _ \<Rightarrow> None)"

definition as_list :: "pyval \<Rightarrow> pyval list option" where
  "as_list v = (case v of PList vs \<Rightarrow> Some vs | _ \<Rightarrow> None)"

definition store ::
  "Functor \<Rightarrow> string \<Rightarrow> pyval \<Rightarrow> 'a option \<Rightarrow> ('a \<Rightarrow> Functor) \<Rightarrow> Functor" where
  "store this n v shaped put =
     (case shaped of
        Some x \<Rightarrow> (put x)\<lparr>attrs := AList.delete n (attrs this)\<rparr>
      | None \<Rightarrow> this\<lparr>attrs := AList.update n v (attrs this)\<rparr>)"

definition SetAttr :: "Functor \<Rightarrow> string \<Rightarrow> pyval \<Rightarrow> Functor" where
  "SetAttr this n v =
     (if n = ''name'' then store this n v (str_of v) (\<lambda>x. this\<lparr>name := x\<rparr>)
      else if n = ''callMethod'' then store this n v (str_of v) (\<lambda>x. this\<lparr>callMethod := x\<rparr>)
      else if n = ''rollbackMethod''
        then store this n v (str_of v) (\<lambda>x. this\<lparr>rollbackMethod := x\<rparr>)
      else if n = ''initialized'' then store this n v (as_bool v) (\<lambda>x. this\<lparr>initialized := x\<rparr>)
      else if n = ''requiredKWArgs''
        then store this n v (as_strs v) (\<lambda>x. this\<lparr>requiredKWArgs := x\<rparr>)
      else if n = ''staticKWArgs''
        then store this n v (as_strs v) (\<lambda>x. this\<lparr>staticKWArgs := x\<rparr>)
      else if n = ''staticArgsValid''
        then store this n v (as_bool v) (\<lambda>x. this\<lparr>staticArgsValid := x\<rparr>)
      else if n = ''optionalKWArgs''
        then store this n v (as_items v) (\<lambda>x. this\<lparr>optionalKWArgs := x\<rparr>)
      else if n = ''argMapping'' then store this n v (as_strs v) (\<lambda>x. this\<lparr>argMapping := x\<rparr>)
      else if n = ''fetchFrom'' then store this n v (as_strs v) (\<lambda>x. this\<lparr>fetchFrom := x\<rparr>)
      else if n = ''requiredMethods''
        then store this n v (as_strs v) (\<lambda>x. this\<lparr>requiredMethods := x\<rparr>)
      else if n = ''requiredPrograms''
        then store this n v (as_strs v) (\<lambda>x. this\<lparr>requiredPrograms := x\<rparr>)
      else if n = ''configNameOverrides''
        then store this n v (as_names v) (\<lambda>x. this\<lparr>configNameOverrides := x\<rparr>)
      else if n = ''enableRollback''
        then store this n v (as_bool v) (\<lambda>x. this\<lparr>enableRollback := x\<rparr>)
      else if n = ''result'' then store this n v (as_int v) (\<lambda>x. this\<lparr>result := x\<rparr>)
      else if n = ''raiseExceptions''
        then store this n v (as_bool v) (\<lambda>x. this\<lparr>raiseExceptions := x\<rparr>)
      else if n = ''functionSucceeded''
        then store this n v (as_bool v) (\<lambda>x. this\<lparr>functionSucceeded := x\<rparr>)
      else if n = ''rollbackSucceeded''
        then store this n v (as_bool v) (\<lambda>x. this\<lparr>rollbackSucceeded := x\<rparr>)
      else if n = ''precursor'' then store this n v (as_link v) (\<lambda>x. this\<lparr>precursor := x\<rparr>)
      else if n = ''executor'' then store this n v (as_link v) (\<lambda>x. this\<lparr>executor := x\<rparr>)
      else if n = ''next'' then store this n v (Some v) (\<lambda>x. this\<lparr>next := x\<rparr>)
      else if n = ''args'' then store this n v (as_list v) (\<lambda>x. this\<lparr>args := x\<rparr>)
      else if n = ''kwargs'' then store this n v (as_items v) (\<lambda>x. this\<lparr>kwargs := x\<rparr>)
      else if n = ''config''
        then store (this\<lparr>config := None\<rparr>) n v (as_items v) (\<lambda>x. this\<lparr>config := Some x\<rparr>)
      else this\<lparr>attrs := AList.update n v (attrs this)\<rparr>)"

section \<open>The lifecycle\<close>

text \<open>
  The state of an invocation: the objects, the log of the \<open>callbacks.fetch\<close> invocations,
  the stack of the Operations in flight, and what the orchestrating context was asked:
  the Operations it was told to execute (successor, predecessor, remaining queue) and its
  placement hooks (hook, name).

  Modelled from the spec: \<open>FunctorTracker\<close> (FunctorTracker.py is not among the sources)
  is "a process-wide stack [that] tracks in-flight Operations (push on entry, pop on
  exit)".
\<close>

record system =
  objects :: heap
  fetch_log :: "fetch_event list"
  tracker :: "nat list"
  executed :: "(pyval \<times> nat \<times> pyval) list"
  placing :: "(string \<times> string) list"

definition this_of :: "system \<Rightarrow> nat \<Rightarrow> Functor option" where
  "this_of s a = deref (objects s) a"

definition modify :: "nat \<Rightarrow> (Functor \<Rightarrow> Functor) \<Rightarrow> system \<Rightarrow> system" where
  "modify a f s = s\<lparr>objects := (objects s)[a := f (objects s ! a)]\<rparr>"

definition Push :: "nat \<Rightarrow> system \<Rightarrow> system" where
  "Push a s = s\<lparr>tracker := tracker s @ [a]\<rparr>"

definition Pop :: "nat \<Rightarrow> system \<Rightarrow> system" where
  "Pop a s = s\<lparr>tracker := butlast (tracker s)\<rparr>"

text \<open>
  \<open>Fetch\<close> and \<open>FetchWithout\<close> as the lifecycle calls them, with a fresh \<open>attempted\<close>
  list. The depth is one more than the number of objects, which is always enough
  (\<open>FetchN_enough\<close> below), so that \<open>RecursionError\<close> does not arise.
\<close>

definition settle :: "fetched outcome \<Rightarrow> system \<Rightarrow> (error + fetched) \<times> system" where
  "settle r s =
     (case r of
        None \<Rightarrow> (Inl RecursionError, s)
      | Some (x, (att, evs)) \<Rightarrow> (x, s\<lparr>fetch_log := evs\<rparr>))"

definition Fetch :: "runtime \<Rightarrow> system \<Rightarrow> nat \<Rightarrow> string \<Rightarrow> pyval \<Rightarrow> (error + fetched) \<times> system" where
  "Fetch rt s a varName dflt =
     settle (FetchN (Suc (length (objects s))) rt (objects s) a varName dflt None True None
               (fetch_log s)) s"

definition FetchWithout ::
  "runtime \<Rightarrow> system \<Rightarrow> nat \<Rightarrow> string list \<Rightarrow> string \<Rightarrow> pyval \<Rightarrow> bool
    \<Rightarrow> (error + fetched) \<times> system" where
  "FetchWithout rt s a dontFetchFrom varName dflt start =
     settle (FetchWithoutN (Suc (length (objects s))) rt (objects s) a dontFetchFrom varName dflt
               None start None (fetch_log s)) s"

text \<open>\<open>Set\<close>\<close>

definition Set :: "runtime \<Rightarrow> nat \<Rightarrow> string \<Rightarrow> pyval \<Rightarrow> bool \<Rightarrow> system \<Rightarrow> error option \<times> system" where
  "Set rt a varName value evaluateExpressions s =
     (case this_of s a of
        None \<Rightarrow> (Some DanglingReference, s)
      | Some this \<Rightarrow>
          (case EvaluateToType rt (objects s) a value evaluateExpressions of
             Inl e \<Rightarrow> (Some e, s)
           | Inr value \<Rightarrow>
               let varName = (case map_of (configNameOverrides this) varName of
                                Some var \<Rightarrow> var
                              | None \<Rightarrow> varName)
               in (None, modify a (\<lambda>this. SetAttr this varName value) s)))"

text \<open>
  \<open>ValidateStaticArgs\<close>. The value of a top call of \<open>Fetch\<close> is the fetched value itself.
\<close>

fun fetched_value :: "fetched \<Rightarrow> pyval" where
  "fetched_value (Value v) = v"
| "fetched_value (Pair v found) = v"

fun static_args :: "runtime \<Rightarrow> nat \<Rightarrow> string list \<Rightarrow> system \<Rightarrow> error option \<times> system" where
  "static_args rt a [] s = (None, s)"
| "static_args rt a (skw # rest) s =
     (case this_of s a of
        None \<Rightarrow> (Some DanglingReference, s)
      | Some this \<Rightarrow>
          if HasAttr this skw then static_args rt a rest s
          else
            (case Fetch rt s a skw PNone of
               (Inl e, s') \<Rightarrow> (Some e, s')
             | (Inr fetched, s') \<Rightarrow>
                 if fetched_value fetched \<noteq> PNone
                 then (case Set rt a skw (fetched_value fetched) True s' of
                         (Some e, s'') \<Rightarrow> (Some e, s'')
                       | (None, s'') \<Rightarrow> static_args rt a rest s'')
                 else (Some MissingArgumentError, s')))"

definition ValidateStaticArgs :: "runtime \<Rightarrow> nat \<Rightarrow> system \<Rightarrow> error option \<times> system" where
  "ValidateStaticArgs rt a s =
     (case this_of s a of
        None \<Rightarrow> (Some DanglingReference, s)
      | Some this \<Rightarrow>
          if staticArgsValid this then (None, s)
          else
            (case static_args rt a (staticKWArgs this) s of
               (Some e, s') \<Rightarrow> (Some e, s')
             | (None, s') \<Rightarrow> (None, modify a (\<lambda>this. this\<lparr>staticArgsValid := True\<rparr>) s')))"

section \<open>The invocation\<close>

text \<open>
  What the class of the object and the orchestrating context supply: the methods that
  \<open>__call__\<close> looks up by name (the capability, its hooks and its success predicate;
  \<open>None\<close> where the class has no such attribute), \<open>PopulateMethods\<close> (Method.py is not
  among the sources), \<open>ParseInitialArgs\<close>, which attributes are callable,
  \<open>ValidateNext\<close>, and the context's \<open>Execute(next, precursor, next)\<close>. They act on the
  objects; the tracker and the logs are out of their reach.
\<close>

record klass =
  method_named :: "string \<Rightarrow> (heap \<Rightarrow> nat \<Rightarrow> (error + pyval) \<times> heap) option"
  PopulateMethods :: "heap \<Rightarrow> nat \<Rightarrow> error option \<times> heap"
  ParseInitialArgs :: "heap \<Rightarrow> nat \<Rightarrow> error option \<times> heap"
  is_callable :: "Functor \<Rightarrow> string \<Rightarrow> bool"
  ValidateNext :: "Functor \<Rightarrow> pyval \<Rightarrow> bool"
  Execute :: "heap \<Rightarrow> nat \<Rightarrow> pyval \<Rightarrow> nat \<Rightarrow> pyval \<Rightarrow> (error + pyval) \<times> heap"

text \<open>Steps run in order until one raises.\<close>

fun run_steps :: "('s \<Rightarrow> error option \<times> 's) list \<Rightarrow> 's \<Rightarrow> error option \<times> 's" where
  "run_steps [] s = (None, s)"
| "run_steps (step # steps) s =
     (case step s of
        (Some e, s') \<Rightarrow> (Some e, s')
      | (None, s') \<Rightarrow> run_steps steps s')"

definition on_this :: "nat \<Rightarrow> (Functor \<Rightarrow> error option \<times> Functor) \<Rightarrow> system \<Rightarrow> error option \<times> system" where
  "on_this a step s =
     (case this_of s a of
        None \<Rightarrow> (Some DanglingReference, s)
      | Some this \<Rightarrow> (case step this of (e, this') \<Rightarrow> (e, modify a (\<lambda>_. this') s)))"

definition on_objects ::
  "(heap \<Rightarrow> nat \<Rightarrow> error option \<times> heap) \<Rightarrow> nat \<Rightarrow> system \<Rightarrow> error option \<times> system" where
  "on_objects step a s = (case step (objects s) a of (e, h) \<Rightarrow> (e, s\<lparr>objects := h\<rparr>))"

text \<open>
  \<open>if (this.executor): this.executor.BeginPlacing(this.name)\<close>, and the same with
  \<open>ResolvePlacementOf\<close>: the context is told, which the model records.
\<close>

definition placement :: "string \<Rightarrow> nat \<Rightarrow> system \<Rightarrow> error option \<times> system" where
  "placement hook a s =
     (case this_of s a of
        None \<Rightarrow> (Some DanglingReference, s)
      | Some this \<Rightarrow>
          (case executor this of
             None \<Rightarrow> (None, s)
           | Some x \<Rightarrow> (None, s\<lparr>placing := placing s @ [(hook, name this)]\<rparr>)))"

text \<open>\<open>PopulateNext\<close>\<close>

definition PopulateNext :: "runtime \<Rightarrow> nat \<Rightarrow> system \<Rightarrow> error option \<times> system" where
  "PopulateNext rt a s =
     (let dontFetchFrom = [''this'', ''environment'', ''executor'', ''globals'']
      in case FetchWithout rt s a dontFetchFrom ''next'' (PList []) True of
           (Inl e, s') \<Rightarrow> (Some e, s')
         | (Inr fetched, s') \<Rightarrow> Set rt a ''next'' (fetched_value fetched) False s')"

text \<open>
  \<open>ValidateArgs\<close>. \<open>dict(zip(argMapping[:len(args)], args))\<close> keeps one entry for each
  name, with the last value given for it.
\<close>

definition arg_map :: "string list \<Rightarrow> pyval list \<Rightarrow> (string \<times> pyval) list" where
  "arg_map mapping given_args =
     fold (\<lambda>(k, v) m. AList.update k v m) (zip (take (length given_args) mapping) given_args) []"

fun set_all :: "runtime \<Rightarrow> nat \<Rightarrow> (string \<times> pyval) list \<Rightarrow> system \<Rightarrow> error option \<times> system" where
  "set_all rt a [] s = (None, s)"
| "set_all rt a ((arg, value) # others) s =
     (case Set rt a arg value True s of
        (Some e, s') \<Rightarrow> (Some e, s')
      | (None, s') \<Rightarrow> set_all rt a others s')"

fun required_args ::
  "runtime \<Rightarrow> nat \<Rightarrow> string list \<Rightarrow> string list \<Rightarrow> system \<Rightarrow> error option \<times> system" where
  "required_args rt a mapped [] s = (None, s)"
| "required_args rt a mapped (rkw # others) s =
     (if rkw \<in> set mapped then required_args rt a mapped others s
      else
        (case FetchWithout rt s a [''this''] rkw PNone False of
           (Inl e, s') \<Rightarrow> (Some e, s')
         | (Inr (Value v), s') \<Rightarrow> (Some TypeError, s')
         | (Inr (Pair fetched found), s') \<Rightarrow>
             if found
             then (case Set rt a rkw fetched True s' of
                     (Some e, s'') \<Rightarrow> (Some e, s'')
                   | (None, s'') \<Rightarrow> required_args rt a mapped others s'')
             else (Some MissingArgumentError, s')))"

fun optional_args ::
  "runtime \<Rightarrow> nat \<Rightarrow> string list \<Rightarrow> (string \<times> pyval) list \<Rightarrow> system
    \<Rightarrow> error option \<times> system" where
  "optional_args rt a mapped [] s = (None, s)"
| "optional_args rt a mapped ((okw, dflt) # others) s =
     (if okw \<in> set mapped then optional_args rt a mapped others s
      else
        (case FetchWithout rt s a [''this''] okw dflt True of
           (Inl e, s') \<Rightarrow> (Some e, s')
         | (Inr fetched, s') \<Rightarrow>
             (case Set rt a okw (fetched_value fetched) True s' of
                (Some e, s'') \<Rightarrow> (Some e, s'')
              | (None, s'') \<Rightarrow> optional_args rt a mapped others s'')))"

definition ValidateArgs :: "runtime \<Rightarrow> nat \<Rightarrow> system \<Rightarrow> error option \<times> system" where
  "ValidateArgs rt a s =
     (case this_of s a of
        None \<Rightarrow> (Some DanglingReference, s)
      | Some this \<Rightarrow>
          if length (args this) > length (argMapping this) then (Some MissingArgumentError, s)
          else
            let argMap = arg_map (argMapping this) (args this)
            in run_steps
                 [set_all rt a argMap,
                  (\<lambda>s. case this_of s a of
                          None \<Rightarrow> (Some DanglingReference, s)
                        | Some this \<Rightarrow>
                            required_args rt a (map fst argMap) (requiredKWArgs this) s),
                  (\<lambda>s. case this_of s a of
                          None \<Rightarrow> (Some DanglingReference, s)
                        | Some this \<Rightarrow>
                            optional_args rt a (map fst argMap) (optionalKWArgs this) s)]
                 s)"

text \<open>\<open>ValidateMethods\<close>\<close>

definition ValidateMethods :: "klass \<Rightarrow> nat \<Rightarrow> system \<Rightarrow> error option \<times> system" where
  "ValidateMethods K a s =
     (case this_of s a of
        None \<Rightarrow> (Some DanglingReference, s)
      | Some this \<Rightarrow>
          if \<forall>m \<in> set (requiredMethods this). is_callable K this m then (None, s)
          else (Some MissingMethodError, s))"

text \<open>
  \<open>WarmUp\<close>: the steps, and the handler that passes the exception on when
  \<open>raiseExceptions\<close> is set and drops it otherwise.
\<close>

definition WarmUp ::
  "klass \<Rightarrow> runtime \<Rightarrow> nat \<Rightarrow> pyval list \<Rightarrow> (string \<times> pyval) list \<Rightarrow> system
    \<Rightarrow> error option \<times> system" where
  "WarmUp K rt a given_args given_kwargs s =
     (let s = modify a (\<lambda>this. this\<lparr>args := given_args, kwargs := given_kwargs\<rparr>) s
      in case run_steps
                [on_this a PopulatePrecursor,
                 placement ''BeginPlacing'' a,
                 on_this a (Initialize rt),
                 on_objects (PopulateMethods K) a,
                 on_objects (ParseInitialArgs K) a,
                 ValidateStaticArgs rt a,
                 PopulateNext rt a,
                 ValidateArgs rt a,
                 ValidateMethods K a,
                 placement ''ResolvePlacementOf'' a] s of
           (None, s') \<Rightarrow> (None, s')
         | (Some e, s') \<Rightarrow>
             (case this_of s' a of
                None \<Rightarrow> (Some e, s')
              | Some this \<Rightarrow> if raiseExceptions this then (Some e, s') else (None, s')))"

text \<open>What \<open>if\<close> makes of a value.\<close>

fun truthy :: "pyval \<Rightarrow> bool" where
  "truthy PNone = False"
| "truthy (PBool b) = b"
| "truthy (PInt i) = (i \<noteq> 0)"
| "truthy (PFloat (Finite m e)) = (m \<noteq> 0)"
| "truthy (PFloat x) = True"
| "truthy (PStr s) = (s \<noteq> [])"
| "truthy (PList vs) = (vs \<noteq> [])"
| "truthy (PDict kvs) = (kvs \<noteq> [])"
| "truthy (PRef r) = True"

text \<open>\<open>getattr(this, name)()\<close>, the name taken from the object as it is now.\<close>

definition invoke :: "klass \<Rightarrow> (Functor \<Rightarrow> string) \<Rightarrow> nat \<Rightarrow> system \<Rightarrow> (error + pyval) \<times> system" where
  "invoke K named a s =
     (case this_of s a of
        None \<Rightarrow> (Inl DanglingReference, s)
      | Some this \<Rightarrow>
          (case method_named K (named this) of
             None \<Rightarrow> (Inl AttributeError, s)
           | Some m \<Rightarrow> (case m (objects s) a of (r, h) \<Rightarrow> (r, s\<lparr>objects := h\<rparr>))))"

text \<open>
  \<open>CallNext\<close>. \<open>this.next.pop(0)\<close> takes the first successor off a list; on anything
  else it raises, which is logged and ends \<open>CallNext\<close> with \<open>None\<close>.
\<close>

fun pop_first :: "pyval \<Rightarrow> (pyval \<times> pyval) option" where
  "pop_first (PList (x # xs)) = Some (x, PList xs)"
| "pop_first (PDict kvs) =
     (case map_of kvs (PInt 0) of
        None \<Rightarrow> None
      | Some v \<Rightarrow> Some (v, PDict (AList.delete (PInt 0) kvs)))"
| "pop_first _ = None"

definition CallNext :: "klass \<Rightarrow> nat \<Rightarrow> system \<Rightarrow> (error + pyval) \<times> system" where
  "CallNext K a s =
     (case this_of s a of
        None \<Rightarrow> (Inl DanglingReference, s)
      | Some this \<Rightarrow>
          if \<not> truthy (next this) then (Inr PNone, s)
          else
            (case pop_first (next this) of
               None \<Rightarrow> (Inr PNone, s)
             | Some (successor, remaining) \<Rightarrow>
                 let s = modify a (\<lambda>this. this\<lparr>next := remaining\<rparr>) s
                 in case executor this of
                      None \<Rightarrow> (Inl InvalidNext, s)
                    | Some x \<Rightarrow>
                        if \<not> ValidateNext K (this\<lparr>next := remaining\<rparr>) successor
                        then (Inl InvalidNext, s)
                        else
                          (case Execute K (objects s) x successor a remaining of
                             (r, h) \<Rightarrow>
                               (r, s\<lparr>objects := h,
                                      executed := executed s @ [(successor, a, remaining)]\<rparr>))))"

text \<open>
  The names \<open>__call__\<close> builds from \<open>callMethod\<close> and \<open>rollbackMethod\<close>:
  \<open>f"Before{this.callMethod}"\<close>, \<open>f"After{this.callMethod}"\<close>,
  \<open>f"Did{this.callMethod}Succeed"\<close> and \<open>f"Did{this.rollbackMethod}Succeed"\<close>.
\<close>

definition before_name :: "Functor \<Rightarrow> string" where
  "before_name this = ''Before'' @ callMethod this"

definition after_name :: "Functor \<Rightarrow> string" where
  "after_name this = ''After'' @ callMethod this"

definition did_call_name :: "Functor \<Rightarrow> string" where
  "did_call_name this = ''Did'' @ callMethod this @ ''Succeed''"

definition did_rollback_name :: "Functor \<Rightarrow> string" where
  "did_rollback_name this = ''Did'' @ rollbackMethod this @ ''Succeed''"

text \<open>
  The \<open>try\<close> block of \<open>__call__\<close>. It hands back the exception it ended with, if any,
  the local variables \<open>ret\<close> and \<open>nextRet\<close>, and the state.
\<close>

definition set_result :: "nat \<Rightarrow> int \<Rightarrow> system \<Rightarrow> system" where
  "set_result a r s = modify a (\<lambda>this. this\<lparr>result := r\<rparr>) s"

definition after_hook ::
  "klass \<Rightarrow> nat \<Rightarrow> pyval \<Rightarrow> pyval \<Rightarrow> system \<Rightarrow> error option \<times> pyval \<times> pyval \<times> system" where
  "after_hook K a ret nextRet s =
     (case invoke K after_name a s of
        (Inl e, s') \<Rightarrow> (Some e, ret, nextRet, s')
      | (Inr r, s') \<Rightarrow> (None, ret, nextRet, s'))"

definition call_next_then_after ::
  "klass \<Rightarrow> nat \<Rightarrow> pyval \<Rightarrow> system \<Rightarrow> error option \<times> pyval \<times> pyval \<times> system" where
  "call_next_then_after K a ret s =
     (case CallNext K a s of
        (Inl e, s') \<Rightarrow> (Some e, ret, PNone, s')
      | (Inr nextRet, s') \<Rightarrow> after_hook K a ret nextRet s')"

definition attempt ::
  "klass \<Rightarrow> runtime \<Rightarrow> nat \<Rightarrow> pyval list \<Rightarrow> (string \<times> pyval) list \<Rightarrow> system
    \<Rightarrow> error option \<times> pyval \<times> pyval \<times> system" where
  "attempt K rt a given_args given_kwargs s =
     (case WarmUp K rt a given_args given_kwargs s of
        (Some e, s1) \<Rightarrow> (Some e, PNone, PNone, s1)
      | (None, s1) \<Rightarrow>
     (case invoke K before_name a s1 of
        (Inl e, s2) \<Rightarrow> (Some e, PNone, PNone, s2)
      | (Inr b, s2) \<Rightarrow>
     (case invoke K callMethod a s2 of
        (Inl e, s3) \<Rightarrow> (Some e, PNone, PNone, s3)
      | (Inr ret, s3) \<Rightarrow>
     (case invoke K did_call_name a s3 of
        (Inl e, s4) \<Rightarrow> (Some e, ret, PNone, s4)
      | (Inr succeeded, s4) \<Rightarrow>
          if truthy succeeded then call_next_then_after K a ret (set_result a 0 s4)
          else
            (case this_of s4 a of
               None \<Rightarrow> (Some DanglingReference, ret, PNone, s4)
             | Some this \<Rightarrow>
                 if enableRollback this
                 then
                   (case invoke K rollbackMethod a s4 of
                      (Inl e, s5) \<Rightarrow> (Some e, ret, PNone, s5)
                    | (Inr ret, s5) \<Rightarrow>
                   (case invoke K did_rollback_name a s5 of
                      (Inl e, s6) \<Rightarrow> (Some e, ret, PNone, s6)
                    | (Inr rolled_back, s6) \<Rightarrow>
                        if truthy rolled_back
                        then call_next_then_after K a ret (set_result a 1 s6)
                        else after_hook K a ret PNone (set_result a 2 s6)))
                 else after_hook K a ret PNone (set_result a 3 s4))))))"

text \<open>
  \<open>__call__\<close>: the push, the \<open>try\<close> block with its handler, the check of the result,
  and the pop before the return.
\<close>

definition Functor_call ::
  "klass \<Rightarrow> runtime \<Rightarrow> nat \<Rightarrow> pyval list \<Rightarrow> (string \<times> pyval) list \<Rightarrow> system
    \<Rightarrow> (error + pyval) \<times> system" where
  "Functor_call K rt a given_args given_kwargs s =
     (case attempt K rt a given_args given_kwargs (Push a s) of
        (raised, ret, nextRet, s') \<Rightarrow>
          (case this_of s' a of
             None \<Rightarrow> (Inl DanglingReference, s')
           | Some this \<Rightarrow>
               (case (if raiseExceptions this then raised else None) of
                  Some e \<Rightarrow> (Inl e, s')
                | None \<Rightarrow>
                    if raiseExceptions this \<and> result this > 1 then (Inl FunctorError, s')
                    else (Inr (if nextRet \<noteq> PNone then nextRet else ret), Pop a s'))))"

text \<open>The class Functor itself, in a context that answers every \<open>Execute\<close> with \<open>done\<close>.\<close>

definition Functor_method :: "string \<Rightarrow> (heap \<Rightarrow> nat \<Rightarrow> (error + pyval) \<times> heap) option" where
  "Functor_method n =
     (if n \<in> set [''Function'', ''Rollback'', ''BeforeFunction'', ''AfterFunction'',
                    ''BeforeRollback'', ''AfterRollback'']
      then Some (\<lambda>h a. (Inr PNone, h))
      else if n = ''DidFunctionSucceed''
      then Some (\<lambda>h a. case deref h a of
                          None \<Rightarrow> (Inl DanglingReference, h)
                        | Some this \<Rightarrow> (Inr (PBool (functionSucceeded this)), h))
      else if n = ''DidRollbackSucceed''
      then Some (\<lambda>h a. case deref h a of
                          None \<Rightarrow> (Inl DanglingReference, h)
                        | Some this \<Rightarrow> (Inr (PBool (rollbackSucceeded this)), h))
      else None)"

definition Functor_class :: klass where
  "Functor_class =
     \<lparr> method_named = Functor_method,
       PopulateMethods = (\<lambda>h a. (None, h)),
       ParseInitialArgs = (\<lambda>h a. (None, h)),
       is_callable = (\<lambda>this m. case Functor_method m of None \<Rightarrow> False | Some f \<Rightarrow> True),
       ValidateNext = (\<lambda>this successor. True),
       Execute = (\<lambda>h x successor pre remaining. (Inr (PStr ''done''), h)) \<rparr>"

section \<open>Sample objects\<close>

text \<open>
  A fragment of a runtime for the examples: one environment variable, no extra builtins,
  \<open>list(set(xs))\<close> in the order of last occurrence, and the conversions on the few
  literals the examples use.
\<close>

definition sample_runtime :: runtime where
  "sample_runtime =
     \<lparr> os_environ = (\<lambda>n. if n = ''HOME'' then Some ''/root'' else None),
       builtins_ns = (\<lambda>n. None),
       list_set = remdups,
       py_float = (\<lambda>s. if s = ''3.0'' \<or> s = ''3'' then Some (Finite 3 0) else None),
       str_float = (\<lambda>x. if x = Finite 3 0 then ''3.0'' else ''nan''),
       py_int = (\<lambda>s. if s = ''3'' then Some 3 else None),
       str_int = (\<lambda>i. if i = 3 then ''3'' else ''0''),
       fstring = (\<lambda>h a s.
          if s = ''{this.count}''
          then (case deref h a of
                  None \<Rightarrow> Inl DanglingReference
                | Some this \<Rightarrow>
                    (case GetAttr this ''count'' of
                       Some (PInt i) \<Rightarrow> Inr (if i = 3 then ''3'' else ''0'')
                     | _ \<Rightarrow> Inl AttributeError))
          else Inr s),
       which = (\<lambda>prog. if prog = ''sh'' then Some ''/bin/sh'' else None) \<rparr>"

text \<open>An initialized Functor that looks into itself, the call arguments and its predecessor.\<close>

definition chained :: "string \<Rightarrow> nat option \<Rightarrow> Functor" where
  "chained n p =
     PopulateFetchLocations
       ((Functor_init n)\<lparr>fetchFrom := [''this'', ''args'', ''precursor''], precursor := p\<rparr>)"

text \<open>Two objects that are each other's predecessor.\<close>

definition cyclic_heap :: heap where
  "cyclic_heap = [chained ''A'' (Some 1), chained ''B'' (Some 0)]"

text \<open>An initialized Functor with the scope order of \<open>__init__\<close>.\<close>

definition plain :: "string \<Rightarrow> Functor" where
  "plain n = PopulateFetchLocations (Functor_init n)"

text \<open>One that is called with \<open>HOME='/tmp'\<close>.\<close>

definition called_with_home :: Functor where
  "called_with_home = (plain ''A'')\<lparr>kwargs := [(''HOME'', PStr ''/tmp'')]\<rparr>"

text \<open>A successor at address 0 and its predecessor at address 1, which has \<open>x = 7\<close>.\<close>

definition chain_heap :: heap where
  "chain_heap =
     [chained ''S'' (Some 1), (chained ''P'' None)\<lparr>attrs := [(''x'', PInt 7)]\<rparr>]"

text \<open>A Functor that declares \<open>a\<close> and \<open>b\<close> as required and as optional.\<close>

definition twice_declared :: Functor where
  "twice_declared =
     (Functor_init ''A'')
       \<lparr>requiredKWArgs := [''a'', ''b''],
        optionalKWArgs := [(''a'', PInt 1), (''b'', PInt 2)]\<rparr>"


text \<open>A system at rest that holds the given objects.\<close>

definition idle :: "heap \<Rightarrow> system" where
  "idle h = \<lparr>objects = h, fetch_log = [], tracker = [], executed = [], placing = []\<rparr>"



text \<open>
  Invocations of the object at address 0. The keyword arguments \<open>to_B\<close> queue the
  successor \<open>B\<close> and attach the object at address 1 as executor.
\<close>

definition to_B :: "(string \<times> pyval) list" where
  "to_B = [(''next'', PList [PStr ''B'']), (''executor'', PRef 1)]"

text \<open>Systems whose first object succeeds, fails and rolls back, fails altogether, and fails
  with rollback disabled; and one whose first object requires an argument \<open>a\<close>.\<close>

definition succeeding :: system where
  "succeeding = idle [(plain ''A'')\<lparr>functionSucceeded := True\<rparr>, plain ''X'']"

definition recovering :: system where
  "recovering = idle [(plain ''A'')\<lparr>rollbackSucceeded := True\<rparr>, plain ''X'']"

definition failing :: system where
  "failing = idle [plain ''A'']"

definition unprotected :: system where
  "unprotected = idle [(plain ''A'')\<lparr>enableRollback := False\<rparr>]"

definition needy :: system where
  "needy = idle [(chained ''A'' None)\<lparr>requiredKWArgs := [''a'']\<rparr>]"

text \<open>The state, and the object at address 0, once \<open>__call__\<close> has pushed it and warmed
  it up with the given keyword arguments.\<close>

definition warmed :: "(string \<times> pyval) list \<Rightarrow> system \<Rightarrow> system" where
  "warmed kw s = snd (WarmUp Functor_class sample_runtime 0 [] kw (Push 0 s))"

definition warmed_object :: "(string \<times> pyval) list \<Rightarrow> system \<Rightarrow> Functor" where
  "warmed_object kw s = the (this_of (warmed kw s) 0)"

section \<open>Properties\<close>

subsection \<open>The loop over the scope order\<close>

lemma fetch_loop_append:
  "fetch_loop call L pre st = Some (Inr None, st') \<Longrightarrow>
   fetch_loop call L (pre @ rest) st = fetch_loop call L rest st'"
  by (induction pre arbitrary: st)
     (auto split: option.splits sum.splits prod.splits if_splits)

lemma fetch_loop_inv:
  assumes call: "\<And>r st. P st \<Longrightarrow> \<exists>res st'. call r st = Some (res, st') \<and> P st'"
  shows "P st \<Longrightarrow> \<exists>res st'. fetch_loop call L xs st = Some (res, st') \<and> P st'"
proof (induction xs arbitrary: st)
  case Nil
  then show ?case by simp
next
  case (Cons loc rest)
  show ?case
  proof (cases "map_of L loc")
    case None
    with Cons show ?thesis by simp
  next
    case (Some r)
    from call [OF Cons.prems, of r] obtain res st1
      where c: "call r st = Some (res, st1)" and p: "P st1"
      by blast
    show ?thesis
    proof (cases res)
      case (Inl e)
      with Some c p show ?thesis by simp
    next
      case (Inr vb)
      obtain v b where vb: "vb = (v, b)" by (cases vb)
      show ?thesis
      proof (cases b)
        case True
        with Some c p Inr vb show ?thesis by simp
      next
        case False
        with Some c p Inr vb Cons.IH [OF p] show ?thesis by simp
      qed
    qed
  qed
qed

lemma fetch_loop_mono:
  assumes call: "\<And>r st y. call1 r st = Some y \<Longrightarrow> call2 r st = Some y"
  shows "fetch_loop call1 L xs st = Some y \<Longrightarrow> fetch_loop call2 L xs st = Some y"
proof (induction xs arbitrary: st)
  case Nil
  then show ?case by simp
next
  case (Cons loc rest)
  show ?case
  proof (cases "map_of L loc")
    case None
    with Cons show ?thesis by simp
  next
    case (Some r)
    with Cons.prems obtain z where c: "call1 r st = Some z"
      by (auto split: option.splits)
    from call [OF c] have c2: "call2 r st = Some z" .
    with Cons Some c show ?thesis
      by (auto split: option.splits sum.splits prod.splits if_splits)
  qed
qed

subsection \<open>Termination of \<open>Fetch\<close>\<close>

lemma unpack_Some: "x = Some (r, st) \<Longrightarrow> \<exists>r'. unpack x = Some (r', st)"
  by (auto simp: unpack_def split: sum.splits fetched.splits)

lemma unpack_SomeD: "unpack x = Some y \<Longrightarrow> \<exists>z. x = Some z"
  by (auto simp: unpack_def split: option.splits)

lemma unpack_mono:
  assumes "\<And>y. x = Some y \<Longrightarrow> x' = Some y" "unpack x = Some z"
  shows "unpack x' = Some z"
proof -
  from unpack_SomeD [OF assms(2)] obtain y where "x = Some y" by blast
  with assms show ?thesis by simp
qed

lemma deref_in_set: "deref h a = Some this \<Longrightarrow> this \<in> set h"
  by (auto simp: deref_def split: if_splits)

text \<open>The names of the heap that are not yet in \<open>attempted\<close> bound the depth.\<close>

lemma card_unvisited_less:
  assumes "this \<in> set h" "name this \<notin> set att"
  shows "card (name ` set h - set (att @ [name this])) < card (name ` set h - set att)"
proof -
  have "name ` set h - set (att @ [name this]) = (name ` set h - set att) - {name this}"
    by auto
  moreover have "name this \<in> name ` set h - set att" using assms by auto
  moreover have "finite (name ` set h - set att)" by simp
  ultimately show ?thesis
    by (metis card_Diff1_less)
qed

lemma card_unvisited_mono:
  "set att \<subseteq> set att' \<Longrightarrow> card (name ` set h - set att') \<le> card (name ` set h - set att)"
  by (rule card_mono) auto

lemma card_unvisited_le: "card (name ` set h - set att) \<le> length h"
proof -
  have "card (name ` set h - set att) \<le> card (name ` set h)"
    by (rule card_mono) auto
  also have "\<dots> \<le> card (set h)" by (rule card_image_le) simp
  also have "\<dots> \<le> length h" by (rule card_length)
  finally show ?thesis .
qed

lemma fetch_location_total:
  assumes IH: "\<And>a v d ff start att evs. card (name ` set h - set (given att)) < m \<Longrightarrow>
          \<exists>r att' evs'. FetchN m rt h a v d ff start att evs = Some (r, (att', evs'))
             \<and> set (given att) \<subseteq> set att'
             \<and> (\<forall>this. deref h a = Some this \<longrightarrow> name this \<in> set att')"
    and small: "card (name ` set h - set att1) < m"
    and P: "set att1 \<subseteq> set (fst st)"
  shows "\<exists>res st'. fetch_location (FetchN m rt h) rt h this v d ff r st = Some (res, st')
           \<and> set att1 \<subseteq> set (fst st')"
proof -
  have less: "card (name ` set h - set (given (Some (fst st)))) < m"
    using card_unvisited_mono [OF P, of h] small by (simp add: given_def)
  have deleg: "\<exists>res st'. unpack (FetchN m rt h p v d ff' False (Some (fst st)) (snd st))
                  = Some (res, st') \<and> set att1 \<subseteq> set (fst st')" for p ff'
  proof -
    from IH [OF less, of p v d ff' False "snd st"] obtain r' att' evs'
      where e: "FetchN m rt h p v d ff' False (Some (fst st)) (snd st) = Some (r', (att', evs'))"
        and s: "set (fst st) \<subseteq> set att'" by (auto simp: given_def)
    from unpack_Some [OF e] obtain r2
      where "unpack (FetchN m rt h p v d ff' False (Some (fst st)) (snd st))
               = Some (r2, (att', evs'))"
      by blast
    with s P show ?thesis by auto
  qed
  obtain sa sb where st: "st = (sa, sb)" by (cases st)
  show ?thesis
  proof (cases r)
    case Loc_precursor
    then show ?thesis using P deleg st
      by (auto simp: fetch_location_def fetch_location_precursor_def FetchWithAndWithout_on_def
          split: option.splits)
  next
    case Loc_executor
    then show ?thesis using P deleg st
      by (auto simp: fetch_location_def fetch_location_executor_def FetchWithout_on_def
          split: option.splits)
  qed (use P st in \<open>auto simp: fetch_location_def\<close>)
qed

lemma FetchN_total_aux:
  "card (name ` set h - set (given att)) < n \<Longrightarrow>
     \<exists>r att' evs'. FetchN n rt h a v d ff start att evs = Some (r, (att', evs'))
        \<and> set (given att) \<subseteq> set att'
        \<and> (\<forall>this. deref h a = Some this \<longrightarrow> name this \<in> set att')"
proof (induction n arbitrary: a v d ff start att evs)
  case 0
  then show ?case by simp
next
  case (Suc m)
  show ?case
  proof (cases "deref h a")
    case None
    then show ?thesis by simp
  next
    case (Some this)
    show ?thesis
    proof (cases "name this \<in> set (given att)")
      case True
      with Some show ?thesis by simp
    next
      case False
      define att1 where "att1 = given att @ [name this]"
      define ff1 where "ff1 = (case ff of None \<Rightarrow> fetchFrom this | Some l \<Rightarrow> l)"
      have "card (name ` set h - set att1) < card (name ` set h - set (given att))"
        unfolding att1_def using card_unvisited_less [OF deref_in_set [OF Some] False] .
      with Suc.prems have small: "card (name ` set h - set att1) < m" by simp
      have "\<exists>res st'. fetch_loop (fetch_location (FetchN m rt h) rt h this v d ff1)
               (fetchLocations this) ff1 (att1, evs) = Some (res, st') \<and> set att1 \<subseteq> set (fst st')"
        by (rule fetch_loop_inv [where P = "\<lambda>st. set att1 \<subseteq> set (fst st)"])
           (use fetch_location_total [OF Suc.IH small] in \<open>auto\<close>)
      then obtain res att' evs' where
        loop: "fetch_loop (fetch_location (FetchN m rt h) rt h this v d ff1)
               (fetchLocations this) ff1 (att1, evs) = Some (res, (att', evs'))"
        and sub: "set att1 \<subseteq> set att'" by auto
      have sub': "set (given att) \<subseteq> set att'" "name this \<in> set att'"
        using sub by (auto simp: att1_def)
      show ?thesis using Some False loop sub'
        by (auto simp: att1_def ff1_def Let_def split: sum.splits option.splits)
    qed
  qed
qed

text \<open>More fuel does not change a result.\<close>

lemma fetch_location_mono:
  assumes IH: "\<And>a v d ff start att evs y. FetchN n rt h a v d ff start att evs = Some y \<Longrightarrow>
          FetchN m rt h a v d ff start att evs = Some y"
    and c: "fetch_location (FetchN n rt h) rt h this v d ff r st = Some y"
  shows "fetch_location (FetchN m rt h) rt h this v d ff r st = Some y"
proof (cases r)
  case Loc_precursor
  show ?thesis
  proof (cases "precursor this")
    case None
    with c Loc_precursor show ?thesis
      by (simp add: fetch_location_def fetch_location_precursor_def)
  next
    case (Some p)
    show ?thesis
    proof (cases "deref h p")
      case None
      with c Loc_precursor Some show ?thesis
        by (simp add: fetch_location_def fetch_location_precursor_def)
    next
      case (Some pre)
      with c Loc_precursor \<open>precursor this = Some p\<close> show ?thesis
        by (simp add: fetch_location_def fetch_location_precursor_def FetchWithAndWithout_on_def)
           (erule unpack_mono [rotated], erule IH)
    qed
  qed
next
  case Loc_executor
  show ?thesis
  proof (cases "executor this")
    case None
    with c Loc_executor show ?thesis
      by (simp add: fetch_location_def fetch_location_executor_def)
  next
    case (Some p)
    show ?thesis
    proof (cases "deref h p")
      case None
      with c Loc_executor Some show ?thesis
        by (simp add: fetch_location_def fetch_location_executor_def)
    next
      case (Some pre)
      with c Loc_executor \<open>executor this = Some p\<close> show ?thesis
        by (simp add: fetch_location_def fetch_location_executor_def FetchWithout_on_def)
           (erule unpack_mono [rotated], erule IH)
    qed
  qed
qed (use c in \<open>simp_all add: fetch_location_def\<close>)

text \<open>The body of \<open>Fetch\<close> on an object whose name is not in \<open>attempted\<close>.\<close>

lemma FetchN_unvisited:
  assumes "deref h a = Some this" "name this \<notin> set (given att)"
  shows "FetchN (Suc k) rt h a v d ff start att evs =
     (case fetch_loop
             (fetch_location (FetchN k rt h) rt h this v d
                (case ff of None \<Rightarrow> fetchFrom this | Some l \<Rightarrow> l))
             (fetchLocations this) (case ff of None \<Rightarrow> fetchFrom this | Some l \<Rightarrow> l)
             (given att @ [name this], evs) of
        None \<Rightarrow> None
      | Some (Inl e, st) \<Rightarrow> Some (Inl e, st)
      | Some (Inr (Some (loc, ret)), (att', evs')) \<Rightarrow>
          Some (Inr (hand_back start ret True), (att', fire this (v, loc, ret) evs'))
      | Some (Inr None, (att', evs')) \<Rightarrow>
          Some (Inr (hand_back start d False), (att', fire this (v, ''default'', d) evs')))"
  using assms by (simp add: Let_def)

lemma FetchN_visited:
  assumes "deref h a = Some this" "name this \<in> set (given att)"
  shows "FetchN (Suc k) rt h a v d ff start att evs =
           Some (Inr (hand_back start d False), (given att, evs))"
  using assms by simp

lemma FetchN_fuel_mono:
  "FetchN n rt h a v d ff start att evs = Some y \<Longrightarrow> n \<le> m \<Longrightarrow>
   FetchN m rt h a v d ff start att evs = Some y"
proof (induction n arbitrary: m a v d ff start att evs y)
  case 0
  then show ?case by simp
next
  case (Suc n)
  then obtain m' where m: "m = Suc m'" and le: "n \<le> m'" by (cases m) auto
  have step: "FetchN n rt h a v d ff start att evs = Some y \<Longrightarrow>
    FetchN m' rt h a v d ff start att evs = Some y" for a v d ff start att evs y
    by (rule Suc.IH [OF _ le])
  have loc: "fetch_location (FetchN n rt h) rt h this v d ff1 r st = Some z \<Longrightarrow>
        fetch_location (FetchN m' rt h) rt h this v d ff1 r st = Some z" for this ff1 r st z
    by (rule fetch_location_mono [where n = n, OF step])
  have loop: "fetch_loop (fetch_location (FetchN n rt h) rt h this v d ff1) L xs st = Some z \<Longrightarrow>
        fetch_loop (fetch_location (FetchN m' rt h) rt h this v d ff1) L xs st = Some z"
    for this ff1 L xs st z
    by (rule fetch_loop_mono
          [where ?call1.0 = "fetch_location (FetchN n rt h) rt h this v d ff1", OF loc])
  show ?case
  proof (cases "deref h a")
    case None
    with Suc.prems(1) show ?thesis unfolding m by simp
  next
    case (Some this)
    show ?thesis
    proof (cases "name this \<in> set (given att)")
      case True
      with Some Suc.prems(1) show ?thesis unfolding m by simp
    next
      case False
      let ?ff1 = "case ff of None \<Rightarrow> fetchFrom this | Some l \<Rightarrow> l"
      let ?L = "\<lambda>k. fetch_loop (fetch_location (FetchN k rt h) rt h this v d ?ff1)
                     (fetchLocations this) ?ff1 (given att @ [name this], evs)"
      note unf = FetchN_unvisited [OF Some False]
      from Suc.prems(1) obtain z where z: "?L n = Some z"
        unfolding unf by (cases "?L n") auto
      from loop [OF z] have z': "?L m' = Some z" .
      from Suc.prems(1) show ?thesis unfolding m unf z z' .
    qed
  qed
qed

lemma FetchN_enough:
  assumes "length h < n"
  shows "\<exists>r att' evs'. FetchN n rt h a v d ff start att evs = Some (r, (att', evs'))
        \<and> set (given att) \<subseteq> set att'
        \<and> (\<forall>this. deref h a = Some this \<longrightarrow> name this \<in> set att')"
proof (rule FetchN_total_aux)
  show "card (name ` set h - set (given att)) < n"
    using card_unvisited_le [of h "given att"] assms by simp
qed

lemma FetchN_result_state:
  assumes "FetchN n rt h a v d ff start att evs = Some (r, (att', evs'))"
  shows "set (given att) \<subseteq> set att' \<and> (\<forall>this. deref h a = Some this \<longrightarrow> name this \<in> set att')"
proof -
  define N where "N = max n (Suc (length h))"
  have "FetchN N rt h a v d ff start att evs = Some (r, (att', evs'))"
    by (rule FetchN_fuel_mono [OF assms]) (simp add: N_def)
  moreover have "length h < N" by (simp add: N_def)
  from FetchN_enough [OF this, of rt a v d ff start att evs]
  obtain r2 att2 evs2 where "FetchN N rt h a v d ff start att evs = Some (r2, (att2, evs2))"
    and "set (given att) \<subseteq> set att2"
    and "\<forall>this. deref h a = Some this \<longrightarrow> name this \<in> set att2" by blast
  ultimately show ?thesis by simp
qed

text \<open>
  C1. A \<open>Fetch\<close> on an Operation whose name is already in \<open>attempted\<close> hands back the
  default (alone at a top call, paired with found = False at a nested call) and leaves
  \<open>attempted\<close> and the callback log as they were, whatever scopes are registered: no
  scope is consulted. A \<open>Fetch\<close> that returns has put the name of its Operation into
  \<open>attempted\<close>, and kept what was there. And \<open>Fetch\<close> terminates on every heap, also
  one whose predecessor or context references form a cycle: a depth of one more than the
  number of objects gives a result, and every larger depth gives the same one.
\<close>

theorem Fetch_cycle_safe:
  "(deref h a = Some this \<and> name this \<in> set (given attempted) \<longrightarrow>
      FetchN (Suc n) rt h a varName dflt scopeOrder start attempted evs =
        Some (Inr (if start then Value dflt else Pair dflt False), (given attempted, evs)))
   \<and> (deref h a = Some this \<and>
       FetchN n rt h a varName dflt scopeOrder start attempted evs = Some (r, (att', evs')) \<longrightarrow>
         name this \<in> set att' \<and> set (given attempted) \<subseteq> set att')
   \<and> (\<exists>y. FetchN (Suc (length h)) rt h a varName dflt scopeOrder start attempted evs = Some y
         \<and> (\<forall>k > length h.
               FetchN k rt h a varName dflt scopeOrder start attempted evs = Some y))"
proof (intro conjI impI)
  assume "deref h a = Some this \<and> name this \<in> set (given attempted)"
  then show "FetchN (Suc n) rt h a varName dflt scopeOrder start attempted evs =
        Some (Inr (if start then Value dflt else Pair dflt False), (given attempted, evs))"
    by (simp add: hand_back_def)
next
  assume "deref h a = Some this \<and>
       FetchN n rt h a varName dflt scopeOrder start attempted evs = Some (r, (att', evs'))"
  with FetchN_result_state [of n rt h a varName dflt scopeOrder start attempted evs r att' evs']
  show "name this \<in> set att'" by simp
next
  assume "deref h a = Some this \<and>
       FetchN n rt h a varName dflt scopeOrder start attempted evs = Some (r, (att', evs'))"
  with FetchN_result_state [of n rt h a varName dflt scopeOrder start attempted evs r att' evs']
  show "set (given attempted) \<subseteq> set att'" by simp
next
  from FetchN_enough [of h "Suc (length h)" rt a varName dflt scopeOrder start attempted evs]
  obtain y where y: "FetchN (Suc (length h)) rt h a varName dflt scopeOrder start attempted evs
                       = Some y"
    by auto
  have "FetchN k rt h a varName dflt scopeOrder start attempted evs = Some y"
    if "length h < k" for k
    by (rule FetchN_fuel_mono [OF y]) (use that in simp)
  with y show "\<exists>y. FetchN (Suc (length h)) rt h a varName dflt scopeOrder start attempted evs
                 = Some y
         \<and> (\<forall>k > length h.
               FetchN k rt h a varName dflt scopeOrder start attempted evs = Some y)"
    by blast
qed

theorem Fetch_cycle_safe_witness:
  "deref cyclic_heap 0 = Some (chained ''A'' (Some 1))
   \<and> name (chained ''A'' (Some 1)) \<in> set (given (Some [''B'', ''A'']))
   \<and> FetchN (Suc 0) sample_runtime cyclic_heap 0 ''x'' (PInt 5) None False (Some [''B'', ''A'']) []
       = Some (Inr (Pair (PInt 5) False), ([''B'', ''A''], []))
   \<and> FetchN 3 sample_runtime cyclic_heap 0 ''x'' (PInt 5) None True None []
       = Some (Inr (Value (PInt 5)), ([''A'', ''B''], []))
   \<and> name (chained ''A'' (Some 1)) \<in> set [''A'', ''B'']"
proof -
  have d: "deref cyclic_heap 0 = Some (chained ''A'' (Some 1))"
    by (simp add: deref_def cyclic_heap_def)
  have m: "name (chained ''A'' (Some 1)) \<in> set (given (Some [''B'', ''A'']))"
    by (simp add: chained_def PopulateFetchLocations_def Functor_init_def given_def)
  have e: "FetchN 3 sample_runtime cyclic_heap 0 ''x'' (PInt 5) None True None []
       = Some (Inr (Value (PInt 5)), ([''A'', ''B''], []))"
    by code_simp
  from Fetch_cycle_safe [of cyclic_heap 0 "chained ''A'' (Some 1)" "Some [''B'', ''A'']" 0
      sample_runtime "''x''" "PInt 5" None False "[]"] d m
  have "FetchN (Suc 0) sample_runtime cyclic_heap 0 ''x'' (PInt 5) None False (Some [''B'', ''A'']) []
       = Some (Inr (if False then Value (PInt 5) else Pair (PInt 5) False),
               (given (Some [''B'', ''A'']), []))"
    by blast
  then have one: "FetchN (Suc 0) sample_runtime cyclic_heap 0 ''x'' (PInt 5) None False
                    (Some [''B'', ''A'']) []
       = Some (Inr (Pair (PInt 5) False), ([''B'', ''A''], []))"
    by (simp add: given_def del: FetchN.simps)
  from Fetch_cycle_safe [of cyclic_heap 0 "chained ''A'' (Some 1)" None 3
      sample_runtime "''x''" "PInt 5" None True "[]" "Inr (Value (PInt 5))" "[''A'', ''B'']" "[]"] d e
  have two: "name (chained ''A'' (Some 1)) \<in> set [''A'', ''B'']"
    by blast
  from d m e one two show ?thesis by blast
qed

subsection \<open>The order of the scopes\<close>

lemma fetch_loop_skip:
  "map_of L loc = None \<Longrightarrow> fetch_loop call L (loc # rest) st = fetch_loop call L rest st"
  by simp

lemma fetch_loop_found:
  assumes "fetch_loop call L pre st0 = Some (Inr None, st1)" "map_of L loc = Some r"
    "call r st1 = Some (Inr (v, True), st2)"
  shows "fetch_loop call L (pre @ loc # post) st0 = Some (Inr (Some (loc, v)), st2)"
  using assms by (simp add: fetch_loop_append)

lemma fetch_loop_raised:
  assumes "fetch_loop call L pre st0 = Some (Inr None, st1)" "map_of L loc = Some r"
    "call r st1 = Some (Inl e, st2)"
  shows "fetch_loop call L (pre @ loc # post) st0 = Some (Inl e, st2)"
  using assms by (simp add: fetch_loop_append)

text \<open>
  C2. On an Operation whose name is not yet in \<open>attempted\<close>, \<open>Fetch\<close> walks the scope
  order it was given, or \<open>fetchFrom\<close> when none was given. A scope without an entry in
  \<open>fetchLocations\<close> is passed over. When the scopes before \<open>loc\<close> were passed over or
  reported not found and the resolver of \<open>loc\<close> reports found, its value is the result,
  whatever scopes follow. When no scope reports found, the result is the default (paired
  with found = False at a nested call). In particular a name that is among the call
  arguments and in the environment resolves to the call argument when \<open>args\<close> comes
  before \<open>environment\<close> and no earlier scope finds the name.
\<close>

theorem Fetch_scope_order:
  assumes obj: "deref h a = Some this" and new: "name this \<notin> set (given attempted)"
    and order: "order = (case scopeOrder of None \<Rightarrow> fetchFrom this | Some l \<Rightarrow> l)"
    and call: "call = fetch_location (FetchN n rt h) rt h this varName dflt order"
    and L: "L = fetchLocations this"
    and st0: "st0 = (given attempted @ [name this], evs)"
  shows
  "FetchN (Suc n) rt h a varName dflt None start attempted evs =
     FetchN (Suc n) rt h a varName dflt (Some (fetchFrom this)) start attempted evs
   \<and> (\<forall>loc rest st. map_of L loc = None \<longrightarrow>
         fetch_loop call L (loc # rest) st = fetch_loop call L rest st)
   \<and> (\<forall>pre loc post r st1 v st2.
         order = pre @ loc # post \<and> fetch_loop call L pre st0 = Some (Inr None, st1)
           \<and> map_of L loc = Some r \<and> call r st1 = Some (Inr (v, True), st2) \<longrightarrow>
         FetchN (Suc n) rt h a varName dflt scopeOrder start attempted evs =
           Some (Inr (if start then Value v else Pair v True),
                 (fst st2, fire this (varName, loc, v) (snd st2))))
   \<and> (\<forall>st2. fetch_loop call L order st0 = Some (Inr None, st2) \<longrightarrow>
         FetchN (Suc n) rt h a varName dflt scopeOrder start attempted evs =
           Some (Inr (if start then Value dflt else Pair dflt False),
                 (fst st2, fire this (varName, ''default'', dflt) (snd st2))))
   \<and> (\<forall>pre post st1 v e.
         order = pre @ ''args'' # post \<and> ''environment'' \<in> set post
           \<and> fetch_loop call L pre st0 = Some (Inr None, st1)
           \<and> map_of L ''args'' = Some Loc_args
           \<and> map_of (kwargs this) varName = Some v \<and> os_environ rt varName = Some e \<longrightarrow>
         FetchN (Suc n) rt h a varName dflt scopeOrder start attempted evs =
           Some (Inr (if start then Value v else Pair v True),
                 (fst st1, fire this (varName, ''args'', v) (snd st1))))"
proof -
  note unf = FetchN_unvisited [OF obj new, of n rt varName dflt _ start evs]
  have found: "FetchN (Suc n) rt h a varName dflt scopeOrder start attempted evs =
           Some (Inr (if start then Value v else Pair v True),
                 (fst st2, fire this (varName, loc, v) (snd st2)))"
    if "order = pre @ loc # post" "fetch_loop call L pre st0 = Some (Inr None, st1)"
      "map_of L loc = Some r" "call r st1 = Some (Inr (v, True), st2)"
    for pre loc post r st1 v st2
  proof -
    from fetch_loop_found [OF that(2-4), of post] that(1)
    have "fetch_loop call L order st0 = Some (Inr (Some (loc, v)), st2)" by simp
    then show ?thesis
      unfolding unf using order call L st0 by (cases st2) (simp add: hand_back_def)
  qed
  have c1: "FetchN (Suc n) rt h a varName dflt None start attempted evs =
     FetchN (Suc n) rt h a varName dflt (Some (fetchFrom this)) start attempted evs"
    unfolding unf by simp
  have c4: "FetchN (Suc n) rt h a varName dflt scopeOrder start attempted evs =
           Some (Inr (if start then Value dflt else Pair dflt False),
                 (fst st2, fire this (varName, ''default'', dflt) (snd st2)))"
    if "fetch_loop call L order st0 = Some (Inr None, st2)" for st2
    unfolding unf using that order call L st0 by (cases st2) (simp add: hand_back_def)
  have c5: "FetchN (Suc n) rt h a varName dflt scopeOrder start attempted evs =
           Some (Inr (if start then Value v else Pair v True),
                 (fst st1, fire this (varName, ''args'', v) (snd st1)))"
    if "order = pre @ ''args'' # post" "fetch_loop call L pre st0 = Some (Inr None, st1)"
      "map_of L ''args'' = Some Loc_args" "map_of (kwargs this) varName = Some v"
    for pre post st1 v
  proof (rule found [OF that(1-3)])
    show "call Loc_args st1 = Some (Inr (v, True), st1)"
      using that(4) by (simp add: call fetch_location_def fetch_location_args_def)
  qed
  show ?thesis
    using c1 found c4 c5 by (intro conjI allI impI) (simp, simp, blast, blast, blast)
qed

lemma sample_set_order_ok: "set_order_ok sample_runtime"
  by (simp add: set_order_ok_def sample_runtime_def)

theorem Fetch_scope_order_witness:
  "deref [called_with_home] 0 = Some called_with_home
   \<and> name called_with_home \<notin> set (given None)
   \<and> map_of (kwargs called_with_home) ''HOME'' = Some (PStr ''/tmp'')
   \<and> os_environ sample_runtime ''HOME'' = Some ''/root''
   \<and> FetchN (Suc 0) sample_runtime [called_with_home] 0 ''HOME'' PNone
        (Some [''nowhere'', ''args'', ''environment'']) True None []
       = Some (Inr (Value (PStr ''/tmp'')), ([''A''], []))"
proof -
  let ?order = "[''nowhere'', ''args'', ''environment'']"
  let ?call = "fetch_location (FetchN 0 sample_runtime [called_with_home]) sample_runtime
                 [called_with_home] called_with_home ''HOME'' PNone ?order"
  have d: "deref [called_with_home] 0 = Some called_with_home"
    by (simp add: deref_def)
  have n: "name called_with_home \<notin> set (given None)"
    by (simp add: given_def)
  have k: "map_of (kwargs called_with_home) ''HOME'' = Some (PStr ''/tmp'')"
    by (simp add: called_with_home_def)
  have e: "os_environ sample_runtime ''HOME'' = Some ''/root''"
    by (simp add: sample_runtime_def)
  have nm: "name called_with_home = ''A''"
    by (simp add: called_with_home_def plain_def PopulateFetchLocations_def Functor_init_def)
  have locs: "map_of (fetchLocations called_with_home) ''nowhere'' = None"
    "map_of (fetchLocations called_with_home) ''args'' = Some Loc_args"
    by code_simp+
  have pre: "fetch_loop ?call (fetchLocations called_with_home) [''nowhere'']
               (given None @ [name called_with_home], [])
             = Some (Inr None, ([''A''], []))"
    using locs nm by (simp add: given_def)
  from Fetch_scope_order [OF d n refl refl refl refl, where scopeOrder = "Some ?order"
      and n = 0 and rt = sample_runtime and varName = "''HOME''" and dflt = PNone
      and start = True and evs = "[]"]
  have "\<forall>pre post st1 v e.
         (case Some ?order of None \<Rightarrow> fetchFrom called_with_home | Some l \<Rightarrow> l)
            = pre @ ''args'' # post \<and> ''environment'' \<in> set post
           \<and> fetch_loop (fetch_location (FetchN 0 sample_runtime [called_with_home]) sample_runtime
                 [called_with_home] called_with_home ''HOME'' PNone
                 (case Some ?order of None \<Rightarrow> fetchFrom called_with_home | Some l \<Rightarrow> l))
                 (fetchLocations called_with_home) pre
                 (given None @ [name called_with_home], []) = Some (Inr None, st1)
           \<and> map_of (fetchLocations called_with_home) ''args'' = Some Loc_args
           \<and> map_of (kwargs called_with_home) ''HOME'' = Some v
           \<and> os_environ sample_runtime ''HOME'' = Some e \<longrightarrow>
         FetchN (Suc 0) sample_runtime [called_with_home] 0 ''HOME'' PNone (Some ?order) True None [] =
           Some (Inr (if True then Value v else Pair v True),
                 (fst st1, fire called_with_home (''HOME'', ''args'', v) (snd st1)))"
    by blast
  from this [rule_format, of "[''nowhere'']" "[''environment'']" "([''A''], [])" "PStr ''/tmp''"
      "''/root''"] pre locs(2) k e
  have "FetchN (Suc 0) sample_runtime [called_with_home] 0 ''HOME'' PNone (Some ?order) True None [] =
           Some (Inr (if True then Value (PStr ''/tmp'') else Pair (PStr ''/tmp'') True),
                 (fst ([''A''], []::fetch_event list),
                  fire called_with_home (''HOME'', ''args'', PStr ''/tmp'')
                    (snd ([''A''], []::fetch_event list))))"
    by (simp del: FetchN.simps fetch_loop.simps)
  moreover have "fire called_with_home (''HOME'', ''args'', PStr ''/tmp'') [] = []"
    by code_simp
  ultimately have "FetchN (Suc 0) sample_runtime [called_with_home] 0 ''HOME'' PNone (Some ?order)
      True None [] = Some (Inr (Value (PStr ''/tmp'')), ([''A''], []))"
    by (simp del: FetchN.simps)
  with d n k e show ?thesis by blast
qed

subsection \<open>The delegating scopes\<close>

text \<open>
  C5 (as amended). The \<open>precursor\<close> scope of an Operation with a predecessor hands the
  resolution to the predecessor's \<open>Fetch\<close>, as a nested call with the same \<open>attempted\<close>
  list, over a scope order that holds \<open>this\<close> and does not hold \<open>environment\<close>; without a
  predecessor the scope reports not found.
\<close>

theorem precursor_scope_delegates:
  "(precursor this = Some p \<and> deref h p = Some pre \<longrightarrow>
      (\<exists>order.
          fetch_location (FetchN n rt h) rt h this varName dflt scopeOrder Loc_precursor (att, evs)
            = unpack (FetchN n rt h p varName dflt (Some order) False (Some att) evs)
          \<and> (set_order_ok rt \<longrightarrow> ''this'' \<in> set order \<and> ''environment'' \<notin> set order)))
   \<and> (precursor this = None \<longrightarrow>
        fetch_location (FetchN n rt h) rt h this varName dflt scopeOrder Loc_precursor (att, evs)
          = Some (Inr (dflt, False), (att, evs)))"
proof (intro conjI impI)
  assume a: "precursor this = Some p \<and> deref h p = Some pre"
  let ?order = "list_set rt (filter (\<lambda>f. f \<notin> set [''environment'']) (fetchFrom pre) @ [''this''])"
  have "fetch_location (FetchN n rt h) rt h this varName dflt scopeOrder Loc_precursor (att, evs)
            = unpack (FetchN n rt h p varName dflt (Some ?order) False (Some att) evs)"
    using a by (simp add: fetch_location_def fetch_location_precursor_def
        FetchWithAndWithout_on_def)
  moreover have "set_order_ok rt \<longrightarrow> ''this'' \<in> set ?order \<and> ''environment'' \<notin> set ?order"
    by (simp add: set_order_ok_def)
  ultimately show "\<exists>order.
          fetch_location (FetchN n rt h) rt h this varName dflt scopeOrder Loc_precursor (att, evs)
            = unpack (FetchN n rt h p varName dflt (Some order) False (Some att) evs)
          \<and> (set_order_ok rt \<longrightarrow> ''this'' \<in> set order \<and> ''environment'' \<notin> set order)"
    by blast
next
  assume "precursor this = None"
  then show "fetch_location (FetchN n rt h) rt h this varName dflt scopeOrder Loc_precursor (att, evs)
          = Some (Inr (dflt, False), (att, evs))"
    by (simp add: fetch_location_def fetch_location_precursor_def)
qed

theorem precursor_scope_delegates_witness:
  "precursor (chained ''S'' (Some 1)) = Some 1
   \<and> deref chain_heap 1 = Some ((chained ''P'' None)\<lparr>attrs := [(''x'', PInt 7)]\<rparr>)
   \<and> set_order_ok sample_runtime
   \<and> precursor (chained ''P'' None) = None
   \<and> (\<exists>order.
          fetch_location (FetchN 1 sample_runtime chain_heap) sample_runtime chain_heap
              (chained ''S'' (Some 1)) ''x'' PNone [''precursor''] Loc_precursor ([''S''], [])
            = unpack (FetchN 1 sample_runtime chain_heap 1 ''x'' PNone (Some order) False
                        (Some [''S'']) [])
          \<and> ''this'' \<in> set order \<and> ''environment'' \<notin> set order)
   \<and> fetch_location (FetchN 1 sample_runtime chain_heap) sample_runtime chain_heap
              (chained ''P'' None) ''x'' PNone [''precursor''] Loc_precursor ([''S''], [])
        = Some (Inr (PNone, False), ([''S''], []))"
proof -
  have p: "precursor (chained ''S'' (Some 1)) = Some 1"
    by (simp add: chained_def PopulateFetchLocations_def)
  have d: "deref chain_heap 1 = Some ((chained ''P'' None)\<lparr>attrs := [(''x'', PInt 7)]\<rparr>)"
    by (simp add: deref_def chain_heap_def)
  have n: "precursor (chained ''P'' None) = None"
    by (simp add: chained_def PopulateFetchLocations_def)
  note ok = sample_set_order_ok
  from precursor_scope_delegates [of "chained ''S'' (Some 1)" 1 chain_heap
      "(chained ''P'' None)\<lparr>attrs := [(''x'', PInt 7)]\<rparr>" 1 sample_runtime "''x''" PNone
      "[''precursor'']" "[''S'']" "[]"] p d ok
  have one: "\<exists>order.
          fetch_location (FetchN 1 sample_runtime chain_heap) sample_runtime chain_heap
              (chained ''S'' (Some 1)) ''x'' PNone [''precursor''] Loc_precursor ([''S''], [])
            = unpack (FetchN 1 sample_runtime chain_heap 1 ''x'' PNone (Some order) False
                        (Some [''S'']) [])
          \<and> ''this'' \<in> set order \<and> ''environment'' \<notin> set order"
    by blast
  from precursor_scope_delegates [of "chained ''P'' None" 1 chain_heap
      "(chained ''P'' None)\<lparr>attrs := [(''x'', PInt 7)]\<rparr>" 1 sample_runtime "''x''" PNone
      "[''precursor'']" "[''S'']" "[]"] n
  have two: "fetch_location (FetchN 1 sample_runtime chain_heap) sample_runtime chain_heap
              (chained ''P'' None) ''x'' PNone [''precursor''] Loc_precursor ([''S''], [])
        = Some (Inr (PNone, False), ([''S''], []))"
    by blast
  from p d ok n one two show ?thesis by blast
qed

text \<open>
  C5 as stated fails: the predecessor's own attributes are consulted. The predecessor at
  address 1 has \<open>x = 7\<close> as an attribute and not among its call arguments, and the
  \<open>precursor\<close> scope of its successor finds it.
\<close>

theorem precursor_scope_reads_own_attributes:
  "map_of (kwargs (chain_heap ! 1)) ''x'' = None
   \<and> GetAttr (chain_heap ! 1) ''x'' = Some (PInt 7)
   \<and> fetch_location (FetchN 1 sample_runtime chain_heap) sample_runtime chain_heap
        (chain_heap ! 0) ''x'' PNone [''precursor''] Loc_precursor ([''S''], [])
       = Some (Inr (PInt 7, True), ([''S'', ''P''], []))"
  by code_simp

text \<open>
  C9. \<open>FetchWithout\<close> and \<open>FetchWithAndWithout\<close> are given the current scope order
  \<open>['config']\<close> and nothing to exclude; they resolve \<open>HOME\<close> from the call arguments all the
  same, where \<open>Fetch\<close> over \<open>['config']\<close> hands back the default: both variants start from
  \<open>this.fetchFrom\<close> and drop the order they were given.
\<close>

theorem FetchWithout_ignores_current_order:
  "FetchWithoutN 1 sample_runtime [called_with_home] 0 [] ''HOME'' PNone (Some [''config''])
       True None []
     = Some (Inr (Value (PStr ''/tmp'')), ([''A''], []))
   \<and> FetchWithAndWithoutN 1 sample_runtime [called_with_home] 0 [] [] ''HOME'' PNone
       (Some [''config'']) True None []
     = Some (Inr (Value (PStr ''/tmp'')), ([''A''], []))
   \<and> FetchN 1 sample_runtime [called_with_home] 0 ''HOME'' PNone (Some [''config''])
       True None []
     = Some (Inr (Value PNone), ([''A''], []))"
  by code_simp

text \<open>
  C10. When no executor is attached, the scopes before \<open>executor\<close> were passed over or
  reported not found, and \<open>executor\<close> is registered, \<open>Fetch\<close> raises \<open>AttributeError\<close>:
  the scope is not passed over and the default is not handed back. The \<open>precursor\<close>
  scope without a predecessor reports not found instead. \<open>PopulatePrecursor\<close> leaves the
  executor unset, without raising, when the call arguments hold none.
\<close>

theorem executor_scope_unset_raises:
  assumes obj: "deref h a = Some this" and new: "name this \<notin> set (given attempted)"
    and unset: "executor this = None"
    and order: "order = (case scopeOrder of None \<Rightarrow> fetchFrom this | Some l \<Rightarrow> l)"
    and split: "order = pre @ ''executor'' # post"
    and reg: "map_of (fetchLocations this) ''executor'' = Some Loc_executor"
    and miss: "fetch_loop (fetch_location (FetchN n rt h) rt h this varName dflt order)
                 (fetchLocations this) pre (given attempted @ [name this], evs)
               = Some (Inr None, st1)"
  shows "FetchN (Suc n) rt h a varName dflt scopeOrder start attempted evs
           = Some (Inl AttributeError, st1)
         \<and> (precursor this = None \<longrightarrow>
              fetch_location (FetchN n rt h) rt h this varName dflt order Loc_precursor st1
                = Some (Inr (dflt, False), st1))
         \<and> (map_of (kwargs this) ''executor'' = None \<and> map_of (kwargs this) ''precursor'' = None
              \<longrightarrow> PopulatePrecursor this = (None, this\<lparr>precursor := None\<rparr>))"
proof (intro conjI impI)
  have "fetch_location (FetchN n rt h) rt h this varName dflt order Loc_executor st1
          = Some (Inl AttributeError, st1)"
    using unset by (simp add: fetch_location_def fetch_location_executor_def)
  from fetch_loop_raised [OF miss reg this, of post] split
  have "fetch_loop (fetch_location (FetchN n rt h) rt h this varName dflt order)
                 (fetchLocations this) order (given attempted @ [name this], evs)
               = Some (Inl AttributeError, st1)" by simp
  then show "FetchN (Suc n) rt h a varName dflt scopeOrder start attempted evs
           = Some (Inl AttributeError, st1)"
    unfolding FetchN_unvisited [OF obj new] using order by simp
next
  assume "precursor this = None"
  then show "fetch_location (FetchN n rt h) rt h this varName dflt order Loc_precursor st1
                = Some (Inr (dflt, False), st1)"
    by (simp add: fetch_location_def fetch_location_precursor_def)
next
  assume "map_of (kwargs this) ''executor'' = None \<and> map_of (kwargs this) ''precursor'' = None"
  then show "PopulatePrecursor this = (None, this\<lparr>precursor := None\<rparr>)"
    using unset by (simp add: PopulatePrecursor_def)
qed

theorem executor_scope_unset_raises_witness:
  "deref [plain ''A''] 0 = Some (plain ''A'')
   \<and> name (plain ''A'') \<notin> set (given None)
   \<and> executor (plain ''A'') = None
   \<and> precursor (plain ''A'') = None
   \<and> map_of (kwargs (plain ''A'')) ''executor'' = None
   \<and> map_of (kwargs (plain ''A'')) ''precursor'' = None
   \<and> fetchFrom (plain ''A'')
        = [''this'', ''args'', ''globals'', ''config'', ''precursor''] @ ''executor'' # [''environment'']
   \<and> map_of (fetchLocations (plain ''A'')) ''executor'' = Some Loc_executor
   \<and> FetchN (Suc 0) sample_runtime [plain ''A''] 0 ''x'' PNone None True None []
        = Some (Inl AttributeError, ([''A''], []))
   \<and> PopulatePrecursor (plain ''A'') = (None, (plain ''A'')\<lparr>precursor := None\<rparr>)"
proof -
  let ?pre = "[''this'', ''args'', ''globals'', ''config'', ''precursor'']"
  have d: "deref [plain ''A''] 0 = Some (plain ''A'')" by (simp add: deref_def)
  have n: "name (plain ''A'') \<notin> set (given None)" by (simp add: given_def)
  have x: "executor (plain ''A'') = None" by code_simp
  have p: "precursor (plain ''A'') = None" by code_simp
  have k: "map_of (kwargs (plain ''A'')) ''executor'' = None"
    "map_of (kwargs (plain ''A'')) ''precursor'' = None" by code_simp+
  have o: "fetchFrom (plain ''A'') = ?pre @ ''executor'' # [''environment'']" by code_simp
  have o': "(case None of None \<Rightarrow> fetchFrom (plain ''A'') | Some l \<Rightarrow> l)
              = ?pre @ ''executor'' # [''environment'']" using o by simp
  have r: "map_of (fetchLocations (plain ''A'')) ''executor'' = Some Loc_executor" by code_simp
  have m: "fetch_loop (fetch_location (FetchN 0 sample_runtime [plain ''A'']) sample_runtime
                 [plain ''A''] (plain ''A'') ''x'' PNone
                 (case None of None \<Rightarrow> fetchFrom (plain ''A'') | Some l \<Rightarrow> l))
                 (fetchLocations (plain ''A'')) ?pre (given None @ [name (plain ''A'')], [])
               = Some (Inr None, ([''A''], []))"
    by code_simp
  from executor_scope_unset_raises [OF d n x refl o' r m, of True] p k
  have "FetchN (Suc 0) sample_runtime [plain ''A''] 0 ''x'' PNone None True None []
        = Some (Inl AttributeError, ([''A''], []))
     \<and> PopulatePrecursor (plain ''A'') = (None, (plain ''A'')\<lparr>precursor := None\<rparr>)"
    by blast
  with d n x p k o r show ?thesis by blast
qed

subsection \<open>Initialization\<close>

text \<open>
  C6. \<open>a\<close> and \<open>b\<close> are declared required and optional. After \<open>RemoveDuplicateArgs\<close>,
  and after \<open>Initialize\<close>, \<open>b\<close> is still required while it is optional too: taking \<open>a\<close>
  out of the list moves \<open>b\<close> to the position the loop has already passed.
\<close>

theorem RemoveDuplicateArgs_leaves_duplicate:
  "requiredKWArgs (RemoveDuplicateArgs twice_declared) = [''b'']
   \<and> ''b'' \<in> set (map fst (optionalKWArgs (RemoveDuplicateArgs twice_declared)))
   \<and> requiredKWArgs (snd (Initialize sample_runtime twice_declared)) = [''b'']"
  by code_simp

subsection \<open>Evaluation to a type\<close>







subsection \<open>Static arguments\<close>




lemma this_of_modify:
  "this_of s a = Some this \<Longrightarrow> this_of (modify a f s) a = Some (f this)"
  by (auto simp: this_of_def modify_def deref_def split: if_splits)







lemma field_value_attrs [simp]: "field_value (f\<lparr>attrs := z\<rparr>) n = field_value f n"
  by (simp add: field_value_def)








subsection \<open>The invocation\<close>

lemma this_of_set_result:
  "this_of s a = Some this \<Longrightarrow> this_of (set_result a r s) a = Some (this\<lparr>result := r\<rparr>)"
  unfolding set_result_def by (rule this_of_modify)

lemma set_result_executed: "executed (set_result a r s) = executed s"
  by (simp add: set_result_def modify_def)

lemma invoke_executed: "invoke K named a s = (r, s') \<Longrightarrow> executed s' = executed s"
  by (auto simp: invoke_def split: option.splits prod.splits)

lemma after_hook_executed:
  "after_hook K a ret nextRet s = (e, r, n, s') \<Longrightarrow> executed s' = executed s"
  by (auto simp: after_hook_def split: prod.splits sum.splits dest: invoke_executed)

lemma after_hook_completed:
  "after_hook K a ret nextRet s = (None, r, n, sf) \<Longrightarrow>
     \<exists>s' x. invoke K after_name a s' = (Inr x, sf)"
  by (auto simp: after_hook_def split: prod.splits sum.splits)

lemma call_next_then_after_completed:
  "call_next_then_after K a ret s = (None, r, n, sf) \<Longrightarrow>
     \<exists>s' x. invoke K after_name a s' = (Inr x, sf)"
  by (auto simp: call_next_then_after_def split: prod.splits sum.splits
      dest: after_hook_completed)

lemma attempt_completed:
  assumes "attempt K rt a ga gk s = (None, r, n, sf)"
  shows "\<exists>s' x. invoke K after_name a s' = (Inr x, sf)"
proof -
  obtain e1 s1 where w: "WarmUp K rt a ga gk s = (e1, s1)" by (cases "WarmUp K rt a ga gk s")
  obtain r2 s2 where b: "invoke K before_name a s1 = (r2, s2)"
    by (cases "invoke K before_name a s1")
  obtain r3 s3 where p: "invoke K callMethod a s2 = (r3, s3)"
    by (cases "invoke K callMethod a s2")
  obtain r4 s4 where d: "invoke K did_call_name a s3 = (r4, s4)"
    by (cases "invoke K did_call_name a s3")
  obtain r5 s5 where rb: "invoke K rollbackMethod a s4 = (r5, s5)"
    by (cases "invoke K rollbackMethod a s4")
  obtain r6 s6 where rd: "invoke K did_rollback_name a s5 = (r6, s6)"
    by (cases "invoke K did_rollback_name a s5")
  from assms w b p d rb rd show ?thesis
    unfolding attempt_def
    by (auto split: option.splits sum.splits if_splits
        dest: after_hook_completed call_next_then_after_completed)
qed

lemma CallNext_dispatch:
  assumes "this_of s a = Some this" "next this = PList (successor # rest)"
    "executor this = Some x" "ValidateNext K (this\<lparr>next := PList rest\<rparr>) successor"
    "Execute K (objects (modify a (\<lambda>this. this\<lparr>next := PList rest\<rparr>) s)) x successor a (PList rest)
       = (r, h)"
  shows "CallNext K a s =
           (r, (modify a (\<lambda>this. this\<lparr>next := PList rest\<rparr>) s)
                 \<lparr>objects := h, executed := executed s @ [(successor, a, PList rest)]\<rparr>)"
  using assms by (simp add: CallNext_def Let_def modify_def)

lemma attempt_decided:
  assumes "WarmUp K rt a ga gk s0 = (None, s1)" "invoke K before_name a s1 = (Inr b, s2)"
    "invoke K callMethod a s2 = (Inr ret, s3)" "invoke K did_call_name a s3 = (Inr succeeded, s4)"
    "this_of s4 a = Some this"
  shows "attempt K rt a ga gk s0 =
     (if truthy succeeded then call_next_then_after K a ret (set_result a 0 s4)
      else if enableRollback this
      then (case invoke K rollbackMethod a s4 of
              (Inl e, s5) \<Rightarrow> (Some e, ret, PNone, s5)
            | (Inr ret, s5) \<Rightarrow>
                (case invoke K did_rollback_name a s5 of
                   (Inl e, s6) \<Rightarrow> (Some e, ret, PNone, s6)
                 | (Inr rolled_back, s6) \<Rightarrow>
                     if truthy rolled_back
                     then call_next_then_after K a ret (set_result a 1 s6)
                     else after_hook K a ret PNone (set_result a 2 s6)))
      else after_hook K a ret PNone (set_result a 3 s4))"
  using assms by (simp add: attempt_def)

text \<open>
  C3. An invocation whose warm-up, before-hook, primary capability and success predicate
  return normally goes on as follows. If the predicate holds, \<open>result\<close> is set to 0 and the
  successor is called, then the after-hook. If it fails and rollback is enabled, the rollback
  capability and its predicate run: when that predicate holds, \<open>result\<close> is set to 1 and the
  successor is called, then the after-hook; when it fails, \<open>result\<close> is set to 2 and the
  after-hook runs at once, the orchestrating context being asked nothing. If rollback is
  disabled, \<open>result\<close> is set to 3 and the after-hook runs at once, the orchestrating context
  being asked nothing. Calling the successor, when one is queued, an executor is attached
  and the successor is valid, asks the executor to execute it, with this object as
  predecessor and the rest of the queue. Whenever the attempt ends with \<open>raiseExceptions\<close>
  set and \<open>result\<close> above 1, the invocation raises; when nothing was raised before, it
  raises \<open>FunctorError\<close>, and the after-hook has returned.
\<close>

theorem call_result_codes:
  assumes warm: "WarmUp K rt a given_args given_kwargs (Push a s) = (None, s1)"
    and before: "invoke K before_name a s1 = (Inr b, s2)"
    and primary: "invoke K callMethod a s2 = (Inr ret, s3)"
    and did: "invoke K did_call_name a s3 = (Inr succeeded, s4)"
    and obj: "this_of s4 a = Some this"
  shows
  "(truthy succeeded \<longrightarrow>
      this_of (set_result a 0 s4) a = Some (this\<lparr>result := 0\<rparr>)
      \<and> attempt K rt a given_args given_kwargs (Push a s)
          = call_next_then_after K a ret (set_result a 0 s4))
   \<and> (\<not> truthy succeeded \<and> enableRollback this
        \<and> invoke K rollbackMethod a s4 = (Inr ret', s5)
        \<and> invoke K did_rollback_name a s5 = (Inr rolled_back, s6)
        \<and> this_of s6 a = Some this6 \<longrightarrow>
        (truthy rolled_back \<longrightarrow>
           this_of (set_result a 1 s6) a = Some (this6\<lparr>result := 1\<rparr>)
           \<and> attempt K rt a given_args given_kwargs (Push a s)
               = call_next_then_after K a ret' (set_result a 1 s6))
        \<and> (\<not> truthy rolled_back \<longrightarrow>
           this_of (set_result a 2 s6) a = Some (this6\<lparr>result := 2\<rparr>)
           \<and> attempt K rt a given_args given_kwargs (Push a s)
               = after_hook K a ret' PNone (set_result a 2 s6)
           \<and> executed (snd (snd (snd (attempt K rt a given_args given_kwargs (Push a s)))))
               = executed s6))
   \<and> (\<not> truthy succeeded \<and> \<not> enableRollback this \<longrightarrow>
        this_of (set_result a 3 s4) a = Some (this\<lparr>result := 3\<rparr>)
        \<and> attempt K rt a given_args given_kwargs (Push a s)
            = after_hook K a ret PNone (set_result a 3 s4)
        \<and> executed (snd (snd (snd (attempt K rt a given_args given_kwargs (Push a s)))))
            = executed s4)
   \<and> (\<forall>st t successor rest x r h v.
         this_of st a = Some t \<and> next t = PList (successor # rest) \<and> executor t = Some x
           \<and> ValidateNext K (t\<lparr>next := PList rest\<rparr>) successor
           \<and> Execute K (objects (modify a (\<lambda>this. this\<lparr>next := PList rest\<rparr>) st)) x successor a
                (PList rest) = (Inr r, h) \<longrightarrow>
         call_next_then_after K a v st =
           after_hook K a v r
             ((modify a (\<lambda>this. this\<lparr>next := PList rest\<rparr>) st)
                \<lparr>objects := h, executed := executed st @ [(successor, a, PList rest)]\<rparr>))
   \<and> (\<forall>raised v n sf tf.
         attempt K rt a given_args given_kwargs (Push a s) = (raised, v, n, sf)
           \<and> this_of sf a = Some tf \<and> raiseExceptions tf \<and> result tf > 1 \<longrightarrow>
         (\<exists>e. Functor_call K rt a given_args given_kwargs s = (Inl e, sf)
               \<and> (raised = None \<longrightarrow>
                     e = FunctorError
                     \<and> (\<exists>st x. invoke K after_name a st = (Inr x, sf)))))"
proof -
  note dec = attempt_decided [OF warm before primary did obj]
  have r0: "truthy succeeded \<longrightarrow>
      this_of (set_result a 0 s4) a = Some (this\<lparr>result := 0\<rparr>)
      \<and> attempt K rt a given_args given_kwargs (Push a s)
          = call_next_then_after K a ret (set_result a 0 s4)"
    using dec this_of_set_result [OF obj] by simp
  have r12: "\<not> truthy succeeded \<and> enableRollback this
        \<and> invoke K rollbackMethod a s4 = (Inr ret', s5)
        \<and> invoke K did_rollback_name a s5 = (Inr rolled_back, s6)
        \<and> this_of s6 a = Some this6 \<longrightarrow>
        (truthy rolled_back \<longrightarrow>
           this_of (set_result a 1 s6) a = Some (this6\<lparr>result := 1\<rparr>)
           \<and> attempt K rt a given_args given_kwargs (Push a s)
               = call_next_then_after K a ret' (set_result a 1 s6))
        \<and> (\<not> truthy rolled_back \<longrightarrow>
           this_of (set_result a 2 s6) a = Some (this6\<lparr>result := 2\<rparr>)
           \<and> attempt K rt a given_args given_kwargs (Push a s)
               = after_hook K a ret' PNone (set_result a 2 s6)
           \<and> executed (snd (snd (snd (attempt K rt a given_args given_kwargs (Push a s)))))
               = executed s6)"
  proof (intro impI conjI)
    assume h: "\<not> truthy succeeded \<and> enableRollback this
        \<and> invoke K rollbackMethod a s4 = (Inr ret', s5)
        \<and> invoke K did_rollback_name a s5 = (Inr rolled_back, s6)
        \<and> this_of s6 a = Some this6"
    then have t6: "this_of s6 a = Some this6" by simp
    {
      assume "truthy rolled_back"
      then show "this_of (set_result a 1 s6) a = Some (this6\<lparr>result := 1\<rparr>)"
        using this_of_set_result [OF t6] by simp
    next
      assume "truthy rolled_back"
      then show "attempt K rt a given_args given_kwargs (Push a s)
               = call_next_then_after K a ret' (set_result a 1 s6)"
        using dec h by simp
    next
      assume "\<not> truthy rolled_back"
      then show "this_of (set_result a 2 s6) a = Some (this6\<lparr>result := 2\<rparr>)"
        using this_of_set_result [OF t6] by simp
    next
      assume n: "\<not> truthy rolled_back"
      then show eq: "attempt K rt a given_args given_kwargs (Push a s)
               = after_hook K a ret' PNone (set_result a 2 s6)"
        using dec h by simp
    next
      assume n: "\<not> truthy rolled_back"
      then have eq: "attempt K rt a given_args given_kwargs (Push a s)
               = after_hook K a ret' PNone (set_result a 2 s6)"
        using dec h by simp
      obtain e v m sf where o: "after_hook K a ret' PNone (set_result a 2 s6) = (e, v, m, sf)"
        by (cases "after_hook K a ret' PNone (set_result a 2 s6)")
      from after_hook_executed [OF o] eq o
      show "executed (snd (snd (snd (attempt K rt a given_args given_kwargs (Push a s)))))
               = executed s6"
        by (simp add: set_result_executed)
    }
  qed
  have r3: "\<not> truthy succeeded \<and> \<not> enableRollback this \<longrightarrow>
        this_of (set_result a 3 s4) a = Some (this\<lparr>result := 3\<rparr>)
        \<and> attempt K rt a given_args given_kwargs (Push a s)
            = after_hook K a ret PNone (set_result a 3 s4)
        \<and> executed (snd (snd (snd (attempt K rt a given_args given_kwargs (Push a s)))))
            = executed s4"
  proof (intro impI conjI)
    assume h: "\<not> truthy succeeded \<and> \<not> enableRollback this"
    show "this_of (set_result a 3 s4) a = Some (this\<lparr>result := 3\<rparr>)"
      using this_of_set_result [OF obj] by simp
    show eq: "attempt K rt a given_args given_kwargs (Push a s)
            = after_hook K a ret PNone (set_result a 3 s4)"
      using dec h by simp
    obtain e v m sf where o: "after_hook K a ret PNone (set_result a 3 s4) = (e, v, m, sf)"
      by (cases "after_hook K a ret PNone (set_result a 3 s4)")
    from after_hook_executed [OF o] eq o
    show "executed (snd (snd (snd (attempt K rt a given_args given_kwargs (Push a s)))))
            = executed s4"
      by (simp add: set_result_executed)
  qed
  have disp: "\<forall>st t successor rest x r h v.
         this_of st a = Some t \<and> next t = PList (successor # rest) \<and> executor t = Some x
           \<and> ValidateNext K (t\<lparr>next := PList rest\<rparr>) successor
           \<and> Execute K (objects (modify a (\<lambda>this. this\<lparr>next := PList rest\<rparr>) st)) x successor a
                (PList rest) = (Inr r, h) \<longrightarrow>
         call_next_then_after K a v st =
           after_hook K a v r
             ((modify a (\<lambda>this. this\<lparr>next := PList rest\<rparr>) st)
                \<lparr>objects := h, executed := executed st @ [(successor, a, PList rest)]\<rparr>)"
    by (intro allI impI) (simp add: call_next_then_after_def CallNext_dispatch)
  have raise: "\<forall>raised v n sf tf.
         attempt K rt a given_args given_kwargs (Push a s) = (raised, v, n, sf)
           \<and> this_of sf a = Some tf \<and> raiseExceptions tf \<and> result tf > 1 \<longrightarrow>
         (\<exists>e. Functor_call K rt a given_args given_kwargs s = (Inl e, sf)
               \<and> (raised = None \<longrightarrow>
                     e = FunctorError
                     \<and> (\<exists>st x. invoke K after_name a st = (Inr x, sf))))"
  proof (intro allI impI)
    fix raised v n sf tf
    assume h: "attempt K rt a given_args given_kwargs (Push a s) = (raised, v, n, sf)
           \<and> this_of sf a = Some tf \<and> raiseExceptions tf \<and> result tf > 1"
    show "\<exists>e. Functor_call K rt a given_args given_kwargs s = (Inl e, sf)
               \<and> (raised = None \<longrightarrow>
                     e = FunctorError
                     \<and> (\<exists>st x. invoke K after_name a st = (Inr x, sf)))"
    proof (cases raised)
      case None
      with h attempt_completed [of K rt a given_args given_kwargs "Push a s" v n sf]
      show ?thesis by (simp add: Functor_call_def)
    next
      case (Some e)
      with h show ?thesis by (simp add: Functor_call_def)
    qed
  qed
  from r0 r12 r3 disp raise show ?thesis by blast
qed

theorem call_result_codes_witness:
  "WarmUp Functor_class sample_runtime 0 [] to_B (Push 0 succeeding)
      = (None, warmed to_B succeeding)
   \<and> invoke Functor_class did_call_name 0 (warmed to_B succeeding)
      = (Inr (PBool True), warmed to_B succeeding)
   \<and> this_of (set_result 0 0 (warmed to_B succeeding)) 0
      = Some ((warmed_object to_B succeeding)\<lparr>result := 0\<rparr>)
   \<and> attempt Functor_class sample_runtime 0 [] to_B (Push 0 succeeding)
      = call_next_then_after Functor_class 0 PNone (set_result 0 0 (warmed to_B succeeding))
   \<and> next (warmed_object to_B succeeding) = PList [PStr ''B'']
   \<and> executed (set_result 0 0 (warmed to_B succeeding)) = []
   \<and> call_next_then_after Functor_class 0 PNone (set_result 0 0 (warmed to_B succeeding))
      = after_hook Functor_class 0 PNone (PStr ''done'')
          ((modify 0 (\<lambda>this. this\<lparr>next := PList []\<rparr>) (set_result 0 0 (warmed to_B succeeding)))
             \<lparr>objects := objects (modify 0 (\<lambda>this. this\<lparr>next := PList []\<rparr>)
                                     (set_result 0 0 (warmed to_B succeeding))),
              executed := executed (set_result 0 0 (warmed to_B succeeding))
                            @ [(PStr ''B'', 0, PList [])]\<rparr>)
   \<and> invoke Functor_class did_call_name 0 (warmed to_B recovering)
      = (Inr (PBool False), warmed to_B recovering)
   \<and> invoke Functor_class did_rollback_name 0 (warmed to_B recovering)
      = (Inr (PBool True), warmed to_B recovering)
   \<and> this_of (set_result 0 1 (warmed to_B recovering)) 0
      = Some ((warmed_object to_B recovering)\<lparr>result := 1\<rparr>)
   \<and> attempt Functor_class sample_runtime 0 [] to_B (Push 0 recovering)
      = call_next_then_after Functor_class 0 PNone (set_result 0 1 (warmed to_B recovering))
   \<and> invoke Functor_class did_rollback_name 0 (warmed [] failing)
      = (Inr (PBool False), warmed [] failing)
   \<and> this_of (set_result 0 2 (warmed [] failing)) 0
      = Some ((warmed_object [] failing)\<lparr>result := 2\<rparr>)
   \<and> attempt Functor_class sample_runtime 0 [] [] (Push 0 failing)
      = after_hook Functor_class 0 PNone PNone (set_result 0 2 (warmed [] failing))
   \<and> executed (snd (snd (snd (attempt Functor_class sample_runtime 0 [] [] (Push 0 failing)))))
      = executed (warmed [] failing)
   \<and> raiseExceptions (warmed_object [] failing)
   \<and> Functor_call Functor_class sample_runtime 0 [] [] failing
      = (Inl FunctorError, set_result 0 2 (warmed [] failing))
   \<and> \<not> enableRollback (warmed_object [] unprotected)
   \<and> this_of (set_result 0 3 (warmed [] unprotected)) 0
      = Some ((warmed_object [] unprotected)\<lparr>result := 3\<rparr>)
   \<and> attempt Functor_class sample_runtime 0 [] [] (Push 0 unprotected)
      = after_hook Functor_class 0 PNone PNone (set_result 0 3 (warmed [] unprotected))
   \<and> executed (snd (snd (snd (attempt Functor_class sample_runtime 0 [] [] (Push 0 unprotected)))))
      = executed (warmed [] unprotected)
   \<and> Functor_call Functor_class sample_runtime 0 [] [] unprotected
      = (Inl FunctorError, set_result 0 3 (warmed [] unprotected))"
proof -
  let ?K = Functor_class
  let ?rt = sample_runtime
  let ?W0 = "warmed to_B succeeding"
  let ?W1 = "warmed to_B recovering"
  let ?W2 = "warmed [] failing"
  let ?W3 = "warmed [] unprotected"
  have a1: "WarmUp ?K ?rt 0 [] to_B (Push 0 succeeding) = (None, ?W0)" by code_simp
  have a2: "invoke ?K before_name 0 ?W0 = (Inr PNone, ?W0)" by code_simp
  have a3: "invoke ?K callMethod 0 ?W0 = (Inr PNone, ?W0)" by code_simp
  have a4: "invoke ?K did_call_name 0 ?W0 = (Inr (PBool True), ?W0)" by code_simp
  have a5: "this_of ?W0 0 = Some (warmed_object to_B succeeding)" by code_simp
  have a6: "truthy (PBool True)" by code_simp
  have a7: "next (warmed_object to_B succeeding) = PList [PStr ''B'']" by code_simp
  have a8: "executed (set_result 0 0 ?W0) = []" by code_simp
  have a9: "executor ((warmed_object to_B succeeding)\<lparr>result := 0\<rparr>) = Some 1" by code_simp
  have a10: "ValidateNext ?K ((warmed_object to_B succeeding)\<lparr>result := 0, next := PList []\<rparr>)
               (PStr ''B'')"
    by (simp add: Functor_class_def)
  have a11: "Execute ?K (objects (modify 0 (\<lambda>this. this\<lparr>next := PList []\<rparr>) (set_result 0 0 ?W0)))
               1 (PStr ''B'') 0 (PList [])
             = (Inr (PStr ''done''),
                objects (modify 0 (\<lambda>this. this\<lparr>next := PList []\<rparr>) (set_result 0 0 ?W0)))"
    by (simp add: Functor_class_def)
  note T0 = call_result_codes [OF a1 a2 a3 a4 a5]
  from T0 a6 have c1: "this_of (set_result 0 0 ?W0) 0
      = Some ((warmed_object to_B succeeding)\<lparr>result := 0\<rparr>)"
    by blast
  from T0 a6 have c2: "attempt ?K ?rt 0 [] to_B (Push 0 succeeding)
      = call_next_then_after ?K 0 PNone (set_result 0 0 ?W0)"
    by blast
  have n0: "next ((warmed_object to_B succeeding)\<lparr>result := 0\<rparr>) = PList (PStr ''B'' # [])"
    using a7 by simp
  have c3: "call_next_then_after ?K 0 PNone (set_result 0 0 ?W0)
      = after_hook ?K 0 PNone (PStr ''done'')
          ((modify 0 (\<lambda>this. this\<lparr>next := PList []\<rparr>) (set_result 0 0 ?W0))
             \<lparr>objects := objects (modify 0 (\<lambda>this. this\<lparr>next := PList []\<rparr>)
                                     (set_result 0 0 ?W0)),
              executed := executed (set_result 0 0 ?W0) @ [(PStr ''B'', 0, PList [])]\<rparr>)"
    by (rule T0 [THEN conjunct2, THEN conjunct2, THEN conjunct2, THEN conjunct1, rule_format])
       (intro conjI, rule c1, rule n0, rule a9, rule a10, rule a11)
  have b1: "WarmUp ?K ?rt 0 [] to_B (Push 0 recovering) = (None, ?W1)" by code_simp
  have b2: "invoke ?K before_name 0 ?W1 = (Inr PNone, ?W1)" by code_simp
  have b3: "invoke ?K callMethod 0 ?W1 = (Inr PNone, ?W1)" by code_simp
  have b4: "invoke ?K did_call_name 0 ?W1 = (Inr (PBool False), ?W1)" by code_simp
  have b5: "this_of ?W1 0 = Some (warmed_object to_B recovering)" by code_simp
  have b6: "\<not> truthy (PBool False)" "truthy (PBool True)" by code_simp+
  have b7: "enableRollback (warmed_object to_B recovering)" by code_simp
  have b8: "invoke ?K rollbackMethod 0 ?W1 = (Inr PNone, ?W1)" by code_simp
  have b9: "invoke ?K did_rollback_name 0 ?W1 = (Inr (PBool True), ?W1)" by code_simp
  note T1 = call_result_codes [OF b1 b2 b3 b4 b5, where ret' = PNone and ?s5.0 = ?W1
      and ?s6.0 = ?W1 and rolled_back = "PBool True" and ?this6.0 = "warmed_object to_B recovering"]
  from T1 b4 b5 b6 b7 b8 b9 have d1: "this_of (set_result 0 1 ?W1) 0
      = Some ((warmed_object to_B recovering)\<lparr>result := 1\<rparr>)"
    by blast
  from T1 b4 b5 b6 b7 b8 b9 have d2: "attempt ?K ?rt 0 [] to_B (Push 0 recovering)
      = call_next_then_after ?K 0 PNone (set_result 0 1 ?W1)"
    by blast
  have e1: "WarmUp ?K ?rt 0 [] [] (Push 0 failing) = (None, ?W2)" by code_simp
  have e2: "invoke ?K before_name 0 ?W2 = (Inr PNone, ?W2)" by code_simp
  have e3: "invoke ?K callMethod 0 ?W2 = (Inr PNone, ?W2)" by code_simp
  have e4: "invoke ?K did_call_name 0 ?W2 = (Inr (PBool False), ?W2)" by code_simp
  have e5: "this_of ?W2 0 = Some (warmed_object [] failing)" by code_simp
  have e7: "enableRollback (warmed_object [] failing)" by code_simp
  have e8: "invoke ?K rollbackMethod 0 ?W2 = (Inr PNone, ?W2)" by code_simp
  have e9: "invoke ?K did_rollback_name 0 ?W2 = (Inr (PBool False), ?W2)" by code_simp
  have e10: "raiseExceptions (warmed_object [] failing)" by code_simp
  have e11: "attempt ?K ?rt 0 [] [] (Push 0 failing)
               = (None, PNone, PNone, set_result 0 2 ?W2)"
    by code_simp
  note T2 = call_result_codes [OF e1 e2 e3 e4 e5, where ret' = PNone and ?s5.0 = ?W2
      and ?s6.0 = ?W2 and rolled_back = "PBool False" and ?this6.0 = "warmed_object [] failing"]
  from T2 e5 b6 e7 e8 e9 have f1: "this_of (set_result 0 2 ?W2) 0
      = Some ((warmed_object [] failing)\<lparr>result := 2\<rparr>)"
    by blast
  from T2 e5 b6 e7 e8 e9 have f2: "attempt ?K ?rt 0 [] [] (Push 0 failing)
      = after_hook ?K 0 PNone PNone (set_result 0 2 ?W2)"
    by blast
  from T2 e5 b6 e7 e8 e9 have f3:
    "executed (snd (snd (snd (attempt ?K ?rt 0 [] [] (Push 0 failing))))) = executed ?W2"
    by blast
  have f4r: "raiseExceptions ((warmed_object [] failing)\<lparr>result := 2\<rparr>)"
    "result ((warmed_object [] failing)\<lparr>result := 2\<rparr>) > 1"
    using e10 by simp_all
  have "\<exists>e. Functor_call ?K ?rt 0 [] [] failing = (Inl e, set_result 0 2 ?W2)
          \<and> ((None :: error option) = None \<longrightarrow> e = FunctorError
                \<and> (\<exists>st x. invoke ?K after_name 0 st = (Inr x, set_result 0 2 ?W2)))"
    by (rule T2 [THEN conjunct2, THEN conjunct2, THEN conjunct2, THEN conjunct2, rule_format,
          where raised = "None :: error option"])
       (intro conjI, rule e11, rule f1, rule f4r, rule f4r)
  then have f4: "Functor_call ?K ?rt 0 [] [] failing = (Inl FunctorError, set_result 0 2 ?W2)"
    by blast
  have g1: "WarmUp ?K ?rt 0 [] [] (Push 0 unprotected) = (None, ?W3)" by code_simp
  have g2: "invoke ?K before_name 0 ?W3 = (Inr PNone, ?W3)" by code_simp
  have g3: "invoke ?K callMethod 0 ?W3 = (Inr PNone, ?W3)" by code_simp
  have g4: "invoke ?K did_call_name 0 ?W3 = (Inr (PBool False), ?W3)" by code_simp
  have g5: "this_of ?W3 0 = Some (warmed_object [] unprotected)" by code_simp
  have g7: "\<not> enableRollback (warmed_object [] unprotected)" by code_simp
  have g10: "raiseExceptions (warmed_object [] unprotected)" by code_simp
  have g11: "attempt ?K ?rt 0 [] [] (Push 0 unprotected)
               = (None, PNone, PNone, set_result 0 3 ?W3)"
    by code_simp
  note T3 = call_result_codes [OF g1 g2 g3 g4 g5]
  from T3 b6 g7 have k1: "this_of (set_result 0 3 ?W3) 0
      = Some ((warmed_object [] unprotected)\<lparr>result := 3\<rparr>)"
    by blast
  from T3 b6 g7 have k2: "attempt ?K ?rt 0 [] [] (Push 0 unprotected)
      = after_hook ?K 0 PNone PNone (set_result 0 3 ?W3)"
    by blast
  from T3 b6 g7 have k3:
    "executed (snd (snd (snd (attempt ?K ?rt 0 [] [] (Push 0 unprotected))))) = executed ?W3"
    by blast
  have k4r: "raiseExceptions ((warmed_object [] unprotected)\<lparr>result := 3\<rparr>)"
    "result ((warmed_object [] unprotected)\<lparr>result := 3\<rparr>) > 1"
    using g10 by simp_all
  have "\<exists>e. Functor_call ?K ?rt 0 [] [] unprotected = (Inl e, set_result 0 3 ?W3)
          \<and> ((None :: error option) = None \<longrightarrow> e = FunctorError
                \<and> (\<exists>st x. invoke ?K after_name 0 st = (Inr x, set_result 0 3 ?W3)))"
    by (rule T3 [THEN conjunct2, THEN conjunct2, THEN conjunct2, THEN conjunct2, rule_format,
          where raised = "None :: error option"])
       (intro conjI, rule g11, rule k1, rule k4r, rule k4r)
  then have k4: "Functor_call ?K ?rt 0 [] [] unprotected
                   = (Inl FunctorError, set_result 0 3 ?W3)"
    by blast
  from a1 a4 c1 c2 a7 a8 c3 b4 b9 d1 d2 e9 f1 f2 f3 e10 f4 g7 k1 k2 k3 k4
  show ?thesis by (intro conjI)
qed

text \<open>
  C8. The stack of the Operations in flight is empty before each of three invocations. The
  one that fails without a successful rollback raises \<open>FunctorError\<close>, the one that misses
  a required argument raises \<open>MissingArgumentError\<close>, and both leave the object on the stack:
  \<open>Pop\<close> is only reached on the normal return, after which the stack is empty again.
\<close>

theorem call_raising_keeps_tracker_entry:
  "tracker failing = []
   \<and> Functor_call Functor_class sample_runtime 0 [] [] failing
       = (Inl FunctorError, set_result 0 2 (warmed [] failing))
   \<and> tracker (set_result 0 2 (warmed [] failing)) = [0]
   \<and> tracker needy = []
   \<and> fst (Functor_call Functor_class sample_runtime 0 [] [] needy) = Inl MissingArgumentError
   \<and> tracker (snd (Functor_call Functor_class sample_runtime 0 [] [] needy)) = [0]
   \<and> fst (Functor_call Functor_class sample_runtime 0 [] []
             (idle [(plain ''A'')\<lparr>functionSucceeded := True\<rparr>])) = Inr PNone
   \<and> tracker (snd (Functor_call Functor_class sample_runtime 0 [] []
             (idle [(plain ''A'')\<lparr>functionSucceeded := True\<rparr>]))) = []"
  by code_simp

end
